theory Spec2Isabelle
  imports Main
begin

section \<open>Data model of the block synchroniser\<close>

text \<open>
  Heights, cursors, batch sizes and page sizes are JavaScript numbers that hold integers.
  They are modelled as \<^typ>\<open>int\<close>, which is exact for the safe integers of a double
  (below \<open>2 ^ 53\<close>). \<open>GQLBlock.header.height\<close> is a decimal string in the source, read
  through \<open>Number(...)\<close>; the model keeps the number it denotes.
\<close>

record GQLBlock =
  header_height :: int

record EventsReturn =
  endCursor :: "int option"
  hasBlocks :: bool

text \<open>The job input: all three fields are optional in the source.\<close>

record Input =
  cursor_in :: "int option"
  offset_in :: "int option"
  watch_in :: "bool option"

text \<open>
  \<open>Context = Input & {offset, limit, lastBlock, lastResult?, watch?}\<close>: the cursor stays
  optional in the type (every reader defaults it to 0), \<open>lastBlock\<close> may be null and
  \<open>lastResult\<close> may be undefined.
\<close>

record Context =
  cursor :: "int option"
  offset :: int
  limit :: int
  lastBlock :: "GQLBlock option"
  lastResult :: "EventsReturn option"
  watch :: "bool option"

text \<open>A window \<open>{from, to}\<close> of heights, one unit of fetch and persist work.\<close>

record window =
  from_w :: int
  to_w :: int

datatype error =
    RangeError
  | Failure string
  | WrappedError string error

section \<open>The batch planner\<close>

text \<open>\<open>const { cursor = 0 } = ctx\<close>: an undefined cursor reads as 0.\<close>

definition cursor_of :: "Context \<Rightarrow> int" where
  "cursor_of ctx = (case cursor ctx of None \<Rightarrow> 0 | Some c \<Rightarrow> c)"

text \<open>\<open>Number(ctx.lastBlock?.header.height ?? '0')\<close>.\<close>

definition getLastBlockHeight :: "Context \<Rightarrow> int" where
  "getLastBlockHeight ctx = (case lastBlock ctx of None \<Rightarrow> 0 | Some b \<Rightarrow> header_height b)"

definition getIdsRange :: "Context \<Rightarrow> window" where
  "getIdsRange ctx =
     (let lastHeight = getLastBlockHeight ctx;
          from = cursor_of ctx;
          to = cursor_of ctx + limit ctx
      in \<lparr>from_w = from, to_w = (if to > lastHeight then lastHeight else to)\<rparr>)"

text \<open>
  \<open>Math.ceil(diff / offset)\<close> is a double: dividing by zero gives an infinity or NaN,
  every other quotient of two integers is rounded up to an integer.
\<close>

datatype jsnum = Num int | PosInf | NegInf | NaN

definition ceil_div :: "int \<Rightarrow> int \<Rightarrow> jsnum" where
  "ceil_div a b =
     (if b = 0 then (if a > 0 then PosInf else if a < 0 then NegInf else NaN)
      else Num (- ((- a) div b)))"

text \<open>
  \<open>Array.from({ length: n })\<close>: the length goes through \<open>ToLength\<close> (NaN, negative numbers
  and \<open>-Infinity\<close> become 0, \<open>+Infinity\<close> becomes \<open>2 ^ 53 - 1\<close>), and building an array
  longer than \<open>2 ^ 32 - 1\<close> throws a RangeError.
\<close>

definition array_from_length :: "jsnum \<Rightarrow> error + nat" where
  "array_from_length n =
     (case n of
        NaN \<Rightarrow> Inr 0
      | NegInf \<Rightarrow> Inr 0
      | PosInf \<Rightarrow> Inl RangeError
      | Num k \<Rightarrow> (if k \<le> 0 then Inr 0
                 else if k > 4294967295 then Inl RangeError
                 else Inr (nat k)))"

definition batch_window :: "Context \<Rightarrow> nat \<Rightarrow> window" where
  "batch_window ctx page =
     (let lastHeight = getLastBlockHeight ctx;
          from = from_w (getIdsRange ctx) + int page * offset ctx;
          to = from + offset ctx
      in \<lparr>from_w = from, to_w = (if to > lastHeight then lastHeight else to)\<rparr>)"

definition numberOfBatches :: "Context \<Rightarrow> jsnum" where
  "numberOfBatches ctx =
     (let idsRange = getIdsRange ctx;
          diff = to_w idsRange - from_w idsRange
      in ceil_div diff (offset ctx))"

definition createBatchEvents :: "Context \<Rightarrow> error + window list" where
  "createBatchEvents ctx =
     (case array_from_length (numberOfBatches ctx) of
        Inl e \<Rightarrow> Inl e
      | Inr n \<Rightarrow> Inr (map (batch_window ctx) [0..<n]))"




section \<open>Collaborators and effects\<close>

text \<open>
  The node client, the block store, the queue and the configuration are outside the
  synchroniser. They are parameters of the model: a record of functions stands for the
  collaborators, and the part of the outside world the synchroniser changes is a state
  that every effectful function takes and returns.
\<close>

record env =
  IS_DEV_TEST :: bool
  SYNC_OFFSET :: int
  SYNC_LIMIT :: int

text \<open>What \<open>blocksFromNode(count, start)\<close> resolves to: entries of \<open>blocks\<close> may be null.\<close>

record fetched =
  blocks :: "GQLBlock option list"
  node_endCursor :: "int option"

datatype QueueNames = SYNC_BLOCKS | SYNC_TRANSACTIONS

record queue_item =
  topic :: QueueNames
  payload_blocks :: "GQLBlock list"

datatype state =
    idle
  | gettingLastBlock
  | syncingBlocks
  | checking_st
  | waiting
  | syncingMissingBlocks
  | resettingLastBlock

datatype log_line =
    LogSyncing int int
  | LogAllSynced
  | LogState state
  | LogError error

text \<open>
  When the calls of \<open>syncBlocksRange\<close> of a round run: an entry when the function is
  called for a window, and an entry when the promise of that call settles.
\<close>

datatype call_event = Called window | Settled window

text \<open>
  The world: the block table (of any type \<open>'db\<close>), the downstream queue, the fetch
  requests sent to the node as \<open>(count, start)\<close>, the console, and the schedule of the
  calls of \<open>syncBlocksRange\<close>.
\<close>

record 'db world =
  db :: 'db
  queue :: "queue_item list"
  requests :: "(int \<times> int) list"
  console :: "log_line list"
  calls :: "call_event list"

text \<open>
  The collaborators. \<open>BlockRepository\<close> is not among the sources, so its methods are
  parameters: \<open>latestBlockFromNode\<close> and \<open>blocksFromNode\<close> ask the node, and \<open>insertMany\<close>
  works on the rows staged in a transaction. Two more parameters say when a push to the
  queue and the commit of a transaction fail.
\<close>

record 'db collab =
  latestBlockFromNode :: "error + GQLBlock"
  blocksFromNode :: "int \<Rightarrow> int \<Rightarrow> error + fetched"
  insertMany :: "GQLBlock option list \<Rightarrow> 'db \<Rightarrow> error + 'db"
  push_error :: "queue_item \<Rightarrow> error option"
  commit_error :: "'db \<Rightarrow> error option"

text \<open>
  Modelled from the spec: \<open>queue.push\<close> of \<open>~/infra/queue/Queue\<close>, which is not among the
  sources. The spec describes \<open>push(topic, payload)\<close> as a fire-and-forget enqueue of
  \<open>{blocks}\<close> for a named downstream topic. A push appends one item to the queue; a push
  that fails appends nothing.
\<close>

definition queue_push ::
  "'db collab \<Rightarrow> QueueNames \<Rightarrow> GQLBlock list \<Rightarrow> 'db world \<Rightarrow> (error + unit) \<times> 'db world" where
  "queue_push c name bs world =
     (let item = \<lparr>topic = name, payload_blocks = bs\<rparr>
      in case push_error c item of
           Some e \<Rightarrow> (Inl e, world)
         | None \<Rightarrow> (Inr (), world\<lparr>queue := queue world @ [item]\<rparr>))"

text \<open>
  Modelled from the spec: \<open>db.connection().transaction(callback)\<close> of
  \<open>~/infra/database/Db\<close>, which is not among the sources. The spec calls it one atomic
  transaction that can fail to commit, and says that when persistence fails the whole
  transaction, including the enqueue, rolls back. The callback works on staged rows.
  When it throws, or when the commit fails, the staged rows are dropped, the queue is
  as it was before the transaction, and the error is rethrown; otherwise the staged
  rows become the table and what the callback pushed stays in the queue.
\<close>

definition transaction ::
  "'db collab \<Rightarrow> ('db \<Rightarrow> 'db world \<Rightarrow> (error + ('a \<times> 'db)) \<times> 'db world) \<Rightarrow> 'db world
     \<Rightarrow> (error + 'a) \<times> 'db world" where
  "transaction c callback world =
     (case callback (db world) world of
        (Inl e, world') \<Rightarrow> (Inl e, world'\<lparr>db := db world, queue := queue world\<rparr>)
      | (Inr (a, staged), world') \<Rightarrow>
          (case commit_error c staged of
             Some e \<Rightarrow> (Inl e, world'\<lparr>db := db world, queue := queue world\<rparr>)
           | None \<Rightarrow> (Inr a, world'\<lparr>db := staged\<rparr>)))"

section \<open>The range syncer\<close>

text \<open>\<open>blocks.filter(Boolean)\<close>: the non-null blocks, in order.\<close>

definition filter_Boolean :: "GQLBlock option list \<Rightarrow> GQLBlock list" where
  "filter_Boolean bs = List.map_filter id bs"

text \<open>The callback of the transaction in \<open>syncBlocksRange\<close>.\<close>

definition persist ::
  "'db collab \<Rightarrow> fetched \<Rightarrow> 'db \<Rightarrow> 'db world \<Rightarrow> (error + (EventsReturn \<times> 'db)) \<times> 'db world" where
  "persist c f trx world =
     (case insertMany c (blocks f) trx of
        Inl e \<Rightarrow> (Inl e, world)
      | Inr trx' \<Rightarrow>
          (case queue_push c SYNC_TRANSACTIONS (filter_Boolean (blocks f)) world of
             (Inl e, world') \<Rightarrow> (Inl e, world')
           | (Inr _, world') \<Rightarrow>
               (Inr (\<lparr>endCursor = node_endCursor f, hasBlocks = (length (blocks f) > 0)\<rparr>, trx'),
                world')))"

text \<open>
  \<open>syncBlocksRange\<close> is an async function. It runs up to its first \<open>await\<close> when it is
  called (\<open>syncBlocksRange_start\<close>: the log line and, unless \<open>IS_DEV_TEST\<close> is set, the
  request to the node). The rest of its body (\<open>syncBlocksRange_body\<close>) runs when the node
  has answered, and then the promise of the call settles (\<open>syncBlocksRange_finish\<close>).
  Under \<open>IS_DEV_TEST\<close> the function has no \<open>await\<close>: its promise is settled when the call
  returns, and the caller gets the value when it awaits the promise.
\<close>

definition syncBlocksRange_start :: "env \<Rightarrow> window \<Rightarrow> 'db world \<Rightarrow> 'db world" where
  "syncBlocksRange_start env w world =
     (let world1 = world\<lparr>console := console world @ [LogSyncing (from_w w) (to_w w)],
                        calls := calls world @ [Called w]\<rparr>
      in if \<not> IS_DEV_TEST env
         then world1\<lparr>requests := requests world1 @ [(to_w w - from_w w, from_w w)]\<rparr>
         else world1)"

definition syncBlocksRange_body ::
  "env \<Rightarrow> 'db collab \<Rightarrow> window \<Rightarrow> 'db world \<Rightarrow> (error + EventsReturn) \<times> 'db world" where
  "syncBlocksRange_body env c w world =
     (if \<not> IS_DEV_TEST env
      then (case blocksFromNode c (to_w w - from_w w) (from_w w) of
              Inl e \<Rightarrow> (Inl e, world)
            | Inr f \<Rightarrow> transaction c (persist c f) world)
      else (Inr \<lparr>endCursor = Some (to_w w), hasBlocks = True\<rparr>, world))"

definition syncBlocksRange_finish ::
  "env \<Rightarrow> 'db collab \<Rightarrow> window \<Rightarrow> 'db world \<Rightarrow> (error + EventsReturn) \<times> 'db world" where
  "syncBlocksRange_finish env c w world =
     (case syncBlocksRange_body env c w world of
        (r, world') \<Rightarrow> (r, world'\<lparr>calls := calls world' @ [Settled w]\<rparr>))"

definition syncBlocksRange ::
  "env \<Rightarrow> 'db collab \<Rightarrow> window \<Rightarrow> 'db world \<Rightarrow> (error + EventsReturn) \<times> 'db world" where
  "syncBlocksRange env c w world =
     syncBlocksRange_finish env c w (syncBlocksRange_start env w world)"

text \<open>
  The result \<open>syncBlocksRange\<close> returns for a window when it returns one. It depends on
  the window and on the answer of the node only, not on the table or the queue.
\<close>

definition range_outcome :: "env \<Rightarrow> 'db collab \<Rightarrow> window \<Rightarrow> EventsReturn option" where
  "range_outcome env c w =
     (if \<not> IS_DEV_TEST env
      then (case blocksFromNode c (to_w w - from_w w) (from_w w) of
              Inl e \<Rightarrow> None
            | Inr f \<Rightarrow> Some \<lparr>endCursor = node_endCursor f, hasBlocks = (length (blocks f) > 0)\<rparr>)
      else Some \<lparr>endCursor = Some (to_w w), hasBlocks = True\<rparr>)"

section \<open>One round: \<open>Syncer.syncBlocks\<close>\<close>

text \<open>
  The \<open>for ... of\<close> loop of the \<open>IS_DEV_TEST\<close> branch: each window is awaited before the
  next one starts, and the first failure leaves the loop.
\<close>

fun run_sequential ::
  "env \<Rightarrow> 'db collab \<Rightarrow> window list \<Rightarrow> EventsReturn list \<Rightarrow> 'db world
     \<Rightarrow> (error + EventsReturn list) \<times> 'db world" where
  "run_sequential env c [] results world = (Inr results, world)"
| "run_sequential env c (event # events) results world =
     (case syncBlocksRange env c event world of
        (Inl e, world') \<Rightarrow> (Inl e, world')
      | (Inr result, world') \<Rightarrow> run_sequential env c events (results @ [result]) world')"

text \<open>
  \<open>Promise.all\<close>: it keeps one slot per promise, in the order the promises were given,
  and the first rejection, in the order the promises settle.
\<close>

record promise_all =
  slots :: "EventsReturn option list"
  rejection :: "error option"

text \<open>
  The promises settle in some order; \<open>delay i\<close> is the time window \<open>i\<close> takes, and
  windows that take the same time settle in plan order.
\<close>

definition completion_order :: "(nat \<Rightarrow> nat) \<Rightarrow> nat \<Rightarrow> nat list" where
  "completion_order delay n = sort_key delay [0..<n]"

fun settle_all ::
  "env \<Rightarrow> 'db collab \<Rightarrow> window list \<Rightarrow> nat list \<Rightarrow> promise_all \<Rightarrow> 'db world
     \<Rightarrow> promise_all \<times> 'db world" where
  "settle_all env c events [] p world = (p, world)"
| "settle_all env c events (i # order) p world =
     (case syncBlocksRange_finish env c (events ! i) world of
        (Inl e, world') \<Rightarrow>
          settle_all env c events order
            (p\<lparr>rejection := (case rejection p of None \<Rightarrow> Some e | Some e0 \<Rightarrow> Some e0)\<rparr>) world'
      | (Inr result, world') \<Rightarrow>
          settle_all env c events order (p\<lparr>slots := (slots p)[i := Some result]\<rparr>) world')"

text \<open>
  \<open>events.map(this.syncBlocksRange.bind(this))\<close> calls every window in plan order, which
  runs each call up to its first \<open>await\<close>; the calls then finish in completion order.
\<close>

definition run_parallel ::
  "env \<Rightarrow> 'db collab \<Rightarrow> (nat \<Rightarrow> nat) \<Rightarrow> window list \<Rightarrow> 'db world
     \<Rightarrow> (error + EventsReturn option list) \<times> 'db world" where
  "run_parallel env c delay events world =
     (let world1 = foldl (\<lambda>wo event. syncBlocksRange_start env event wo) world events;
          p0 = \<lparr>slots = replicate (length events) None, rejection = None\<rparr>
      in case settle_all env c events (completion_order delay (length events)) p0 world1 of
           (p, world2) \<Rightarrow>
             (case rejection p of
                Some e \<Rightarrow> (Inl e, world2)
              | None \<Rightarrow> (Inr (slots p), world2)))"

text \<open>\<open>results[results.length - 1]\<close>: undefined when there is no result.\<close>

definition last_result :: "'a option list \<Rightarrow> 'a option" where
  "last_result results = (if results = [] then None else last results)"

definition syncBlocks ::
  "env \<Rightarrow> 'db collab \<Rightarrow> (nat \<Rightarrow> nat) \<Rightarrow> Context \<Rightarrow> 'db world
     \<Rightarrow> (error + EventsReturn option) \<times> 'db world" where
  "syncBlocks env c delay ctx world =
     (case createBatchEvents ctx of
        Inl e \<Rightarrow> (Inl e, world)
      | Inr events \<Rightarrow>
          if cursor_of ctx > 0 \<and> events = []
          then (Inr (Some \<lparr>endCursor = Some (cursor_of ctx), hasBlocks = False\<rparr>),
                world\<lparr>console := console world @ [LogAllSynced]\<rparr>)
          else if IS_DEV_TEST env
          then (case run_sequential env c events [] world of
                  (Inl e, world') \<Rightarrow> (Inl e, world')
                | (Inr results, world') \<Rightarrow> (Inr (last_result (map Some results)), world'))
          else (case run_parallel env c delay events world of
                  (Inl e, world') \<Rightarrow> (Inl e, world')
                | (Inr results, world') \<Rightarrow> (Inr (last_result results), world')))"

definition getLatestBlock :: "'db collab \<Rightarrow> error + GQLBlock" where
  "getLatestBlock c = latestBlockFromNode c"

definition syncMissingBlocks ::
  "env \<Rightarrow> 'db collab \<Rightarrow> Context \<Rightarrow> 'db world \<Rightarrow> (error + EventsReturn) \<times> 'db world" where
  "syncMissingBlocks env c ctx world =
     (case getLatestBlock c of
        Inl e \<Rightarrow> (Inl e, world)
      | Inr b \<Rightarrow>
          (let height = getLastBlockHeight (ctx\<lparr>lastBlock := Some b\<rparr>)
           in syncBlocksRange env c \<lparr>from_w = cursor_of ctx, to_w = height\<rparr> world))"


section \<open>The state machine\<close>

text \<open>
  The machine is an xstate actor. A snapshot holds the state value, the context and the
  status of the actor; \<open>checking_st\<close> is the transient state \<open>checking\<close>, which is left at
  once through its \<open>always\<close> transitions and is never the value of a settled snapshot.
\<close>

datatype actor_status = active | errored error

record snapshot =
  snap_value :: state
  snap_context :: Context
  snap_status :: actor_status

text \<open>
  The events: the start signal, the results of the invoked promises, the timer of
  \<open>waiting\<close>, and the rejection of an invoked promise.
\<close>

datatype event =
    START_SYNC
  | done_getLatestBlock GQLBlock
  | done_syncBlocks "EventsReturn option"
  | done_syncMissingBlocks "EventsReturn option"
  | after_1000
  | error_actor error

definition hasMoreEvents :: "Context \<Rightarrow> bool" where
  "hasMoreEvents ctx = (case lastResult ctx of None \<Rightarrow> False | Some r \<Rightarrow> hasBlocks r)"

definition needToWatch :: "Context \<Rightarrow> bool" where
  "needToWatch ctx = (case watch ctx of None \<Rightarrow> False | Some b \<Rightarrow> b)"

text \<open>
  The context of a new actor. The initialiser also sets a field \<open>events: []\<close>, which
  nothing reads.
\<close>

definition initial_context :: "env \<Rightarrow> Input \<Rightarrow> Context" where
  "initial_context env input =
     \<lparr>cursor = Some (case cursor_in input of None \<Rightarrow> 0 | Some c \<Rightarrow> c),
      offset = (case offset_in input of None \<Rightarrow> SYNC_OFFSET env | Some x \<Rightarrow> x),
      limit = SYNC_LIMIT env,
      lastBlock = None,
      lastResult = None,
      watch = watch_in input\<rparr>"

text \<open>
  The \<open>assign\<close> of \<open>syncingBlocks\<close> and of \<open>syncingMissingBlocks\<close>:
  \<open>lastResult: event.output\<close> and \<open>cursor: event.output?.endCursor ?? context.cursor\<close>.
\<close>

definition assign_result :: "Context \<Rightarrow> EventsReturn option \<Rightarrow> Context" where
  "assign_result ctx output =
     ctx\<lparr>lastResult := output,
         cursor := (case output of
                      None \<Rightarrow> cursor ctx
                    | Some r \<Rightarrow> (case endCursor r of None \<Rightarrow> cursor ctx | Some c \<Rightarrow> Some c))\<rparr>"

text \<open>The \<open>always\<close> transitions of \<open>checking\<close>, in the order of the source.\<close>

definition checking_always :: "Context \<Rightarrow> state" where
  "checking_always ctx =
     (if hasMoreEvents ctx then syncingBlocks
      else if needToWatch ctx then waiting
      else idle)"

fun on_event :: "state \<Rightarrow> Context \<Rightarrow> event \<Rightarrow> (state \<times> Context) option" where
  "on_event idle ctx START_SYNC = Some (gettingLastBlock, ctx)"
| "on_event gettingLastBlock ctx (done_getLatestBlock b) =
     Some (syncingBlocks, ctx\<lparr>lastBlock := Some b\<rparr>)"
| "on_event syncingBlocks ctx (done_syncBlocks output) =
     (let ctx' = assign_result ctx output in Some (checking_always ctx', ctx'))"
| "on_event waiting ctx after_1000 = Some (syncingMissingBlocks, ctx)"
| "on_event syncingMissingBlocks ctx (done_syncMissingBlocks output) =
     Some (resettingLastBlock, assign_result ctx output)"
| "on_event resettingLastBlock ctx (done_getLatestBlock b) =
     Some (waiting, ctx\<lparr>lastBlock := Some b\<rparr>)"
| "on_event _ _ _ = None"

text \<open>
  One macrostep. No state has an \<open>onError\<close> transition, so the rejection of an invoked
  promise puts the actor into its error status; an actor that is not active handles no
  event; an event with no transition in the current state changes nothing.
\<close>

definition transition :: "snapshot \<Rightarrow> event \<Rightarrow> snapshot" where
  "transition s ev =
     (if snap_status s \<noteq> active then s
      else case ev of
             error_actor e \<Rightarrow> s\<lparr>snap_status := errored e\<rparr>
           | _ \<Rightarrow> (case on_event (snap_value s) (snap_context s) ev of
                    None \<Rightarrow> s
                  | Some (v, ctx) \<Rightarrow> s\<lparr>snap_value := v, snap_context := ctx\<rparr>))"

definition createActor :: "env \<Rightarrow> Input \<Rightarrow> snapshot" where
  "createActor env input =
     \<lparr>snap_value = idle, snap_context = initial_context env input, snap_status = active\<rparr>"

text \<open>
  The exported handler \<open>syncBlocks\<close>. Its \<open>try\<close> block creates the actor, subscribes the
  logger, starts the actor and sends \<open>START_SYNC\<close>; all of this is synchronous, and the
  actor keeps an error raised while it handles an event in its own status. The handler
  awaits nothing: it returns when \<open>send\<close> returns, with the first invoked promise still
  pending.
\<close>

definition start_actor :: "env \<Rightarrow> Input \<Rightarrow> error + (snapshot \<times> log_line list)" where
  "start_actor env input =
     (let actor = createActor env input;
          actor' = transition actor START_SYNC
      in Inr (actor', [LogState (snap_value actor), LogState (snap_value actor')]))"

definition syncBlocks_handler ::
  "env \<Rightarrow> Input \<Rightarrow> (error + unit) \<times> snapshot option \<times> log_line list" where
  "syncBlocks_handler env input =
     (case start_actor env input of
        Inr (actor, logs) \<Rightarrow> (Inr (), Some actor, logs)
      | Inl e \<Rightarrow> (Inl (WrappedError ''Sync block attempt failed!'' e), None, [LogError e]))"

text \<open>
  The invoked promises: when the actor is in a state with an \<open>invoke\<close>, the promise of
  that state runs against the collaborators and its outcome comes back as an event;
  in \<open>waiting\<close> the timer fires.
\<close>

definition settled :: "('a \<Rightarrow> event) \<Rightarrow> error + 'a \<Rightarrow> event" where
  "settled mk r = (case r of Inl e \<Rightarrow> error_actor e | Inr a \<Rightarrow> mk a)"

definition drive ::
  "env \<Rightarrow> 'db collab \<Rightarrow> (nat \<Rightarrow> nat) \<Rightarrow> snapshot \<times> 'db world \<Rightarrow> snapshot \<times> 'db world" where
  "drive env c delay sw =
     (case sw of (s, world) \<Rightarrow>
        if snap_status s \<noteq> active then (s, world)
        else case snap_value s of
               idle \<Rightarrow> (s, world)
             | gettingLastBlock \<Rightarrow>
                 (transition s (settled done_getLatestBlock (getLatestBlock c)), world)
             | syncingBlocks \<Rightarrow>
                 (case syncBlocks env c delay (snap_context s) world of
                    (r, world') \<Rightarrow> (transition s (settled done_syncBlocks r), world'))
             | checking_st \<Rightarrow> (s, world)
             | waiting \<Rightarrow> (transition s after_1000, world)
             | syncingMissingBlocks \<Rightarrow>
                 (case syncMissingBlocks env c (snap_context s) world of
                    (r, world') \<Rightarrow>
                      (transition s (settled done_syncMissingBlocks (map_sum id Some r)), world'))
             | resettingLastBlock \<Rightarrow>
                 (transition s (settled done_getLatestBlock (getLatestBlock c)), world))"

text \<open>
  A run of the machine under any events, with the outputs of the rounds of
  \<open>syncingBlocks\<close> it has taken in, oldest first.
\<close>

definition takes_round :: "snapshot \<Rightarrow> event \<Rightarrow> EventsReturn option list" where
  "takes_round s ev =
     (case ev of
        done_syncBlocks output \<Rightarrow>
          (if snap_status s = active \<and> snap_value s = syncingBlocks then [output] else [])
      | _ \<Rightarrow> [])"

definition track ::
  "snapshot \<times> EventsReturn option list \<Rightarrow> event \<Rightarrow> snapshot \<times> EventsReturn option list" where
  "track sr ev = (case sr of (s, rounds) \<Rightarrow> (transition s ev, rounds @ takes_round s ev))"

definition run :: "env \<Rightarrow> Input \<Rightarrow> event list \<Rightarrow> snapshot \<times> EventsReturn option list" where
  "run env input evs = foldl track (createActor env input, []) evs"

text \<open>
  What the guard \<open>hasMoreEvents\<close> reads as "no more blocks" in the output of a round: a
  result with \<open>hasBlocks = false\<close>, or no result at all.
\<close>

definition no_more_blocks :: "EventsReturn option \<Rightarrow> bool" where
  "no_more_blocks output = (case output of None \<Rightarrow> True | Some r \<Rightarrow> \<not> hasBlocks r)"

text \<open>
  The invariant of a run: \<open>checking\<close> is never a settled state; the watch loop
  (\<open>waiting\<close>, \<open>syncingMissingBlocks\<close>, \<open>resettingLastBlock\<close>) is entered only after a round
  without more blocks, in watch mode; \<open>idle\<close> is either the state before any round, or
  follows a round without more blocks outside watch mode; and an active actor that is
  \<open>idle\<close> before any round has not been started.
\<close>

definition run_invariant ::
  "event list \<Rightarrow> snapshot \<Rightarrow> EventsReturn option list \<Rightarrow> bool" where
  "run_invariant evs s rounds =
     (snap_value s \<noteq> checking_st \<and>
      (snap_value s = waiting \<or> snap_value s = syncingMissingBlocks \<or>
         snap_value s = resettingLastBlock
         \<longrightarrow> rounds \<noteq> [] \<and> no_more_blocks (last rounds) \<and> needToWatch (snap_context s)) \<and>
      (snap_value s = idle
         \<longrightarrow> rounds = [] \<or> (no_more_blocks (last rounds) \<and> \<not> needToWatch (snap_context s))) \<and>
      (snap_value s = idle \<and> snap_status s = active \<and> rounds = []
         \<longrightarrow> START_SYNC \<notin> set evs))"

section \<open>\<open>TransactionRepository.upsertMany\<close>\<close>

text \<open>
  A row of \<open>TransactionsTable\<close>: the key \<open>_id\<close>, the column \<open>data\<close> and the other columns.
  The table is a list of rows, oldest first. The schema and \<open>TransactionEntity\<close> are not
  among the sources, so \<open>toDBItem\<close> and \<open>create\<close> are parameters, and \<open>_id\<close> is the only
  constraint of the table in the model.
\<close>

record ('d, 'r) db_item =
  item_id :: string
  item_data :: 'd
  item_rest :: 'r

text \<open>
  One proposed row of \<open>INSERT ... ON CONFLICT (_id) DO UPDATE SET data = <the column data>\<close>.
  \<open>cls.data.getSQL()\<close> names the column \<open>data\<close> of the table, so a conflicting row gets
  the value it already holds; a row with a new key is added. The statement returns the
  row it inserted or updated.
\<close>

fun upsert_row ::
  "('d, 'r) db_item \<Rightarrow> ('d, 'r) db_item list \<Rightarrow> ('d, 'r) db_item \<times> ('d, 'r) db_item list" where
  "upsert_row v [] = (v, [v])"
| "upsert_row v (r # table) =
     (if item_id r = item_id v
      then (let r' = r\<lparr>item_data := item_data r\<rparr> in (r', r' # table))
      else (case upsert_row v table of (x, table') \<Rightarrow> (x, r # table')))"

fun upsert_rows ::
  "('d, 'r) db_item list \<Rightarrow> ('d, 'r) db_item list
     \<Rightarrow> ('d, 'r) db_item list \<times> ('d, 'r) db_item list" where
  "upsert_rows [] table = ([], table)"
| "upsert_rows (v # vs) table =
     (case upsert_row v table of
        (x, table1) \<Rightarrow> (case upsert_rows vs table1 of (xs, table2) \<Rightarrow> (x # xs, table2)))"

text \<open>
  The statement as a whole. The query builder and the database are not among the
  sources; the model follows what they document: \<open>values\<close> of the query builder throws
  on an empty list, and PostgreSQL refuses an \<open>ON CONFLICT DO UPDATE\<close> statement that
  proposes two rows with the same key.
\<close>

definition insert_onConflictDoUpdate ::
  "('d, 'r) db_item list \<Rightarrow> ('d, 'r) db_item list
     \<Rightarrow> error + (('d, 'r) db_item list \<times> ('d, 'r) db_item list)" where
  "insert_onConflictDoUpdate vs table =
     (if vs = [] then Inl (Failure ''values() must be called with at least one value'')
      else if \<not> distinct (map item_id vs)
      then Inl (Failure ''ON CONFLICT DO UPDATE command cannot affect row a second time'')
      else Inr (upsert_rows vs table))"

text \<open>
  \<open>inserts.map((item, index) => TransactionEntity.toDBItem(item.block, item.transaction,
  index))\<close>: an insert is a pair of a block and a transaction.
\<close>

definition proposed_rows ::
  "('b \<Rightarrow> 't \<Rightarrow> nat \<Rightarrow> ('d, 'r) db_item) \<Rightarrow> ('b \<times> 't) list \<Rightarrow> ('d, 'r) db_item list" where
  "proposed_rows toDBItem inserts =
     map (\<lambda>(index, item). toDBItem (fst item) (snd item) index) (List.enumerate 0 inserts)"

definition upsertMany ::
  "('b \<Rightarrow> 't \<Rightarrow> nat \<Rightarrow> ('d, 'r) db_item) \<Rightarrow> (('d, 'r) db_item \<Rightarrow> 'e) \<Rightarrow> ('b \<times> 't) list
     \<Rightarrow> ('d, 'r) db_item list \<Rightarrow> error + ('e list \<times> ('d, 'r) db_item list)" where
  "upsertMany toDBItem create inserts table =
     (let vs = proposed_rows toDBItem inserts
      in case insert_onConflictDoUpdate vs table of
           Inl e \<Rightarrow> Inl e
         | Inr (items, table') \<Rightarrow> Inr (map create items, table'))"

section \<open>Concrete scenarios\<close>

text \<open>
  Contexts, collaborators and worlds on which the theorems below are run. The node of
  these scenarios has a chain of height 22: it serves one block per height after the
  start, up to the count asked for, and reports the last height it served. The block
  table is a list and \<open>insertMany\<close> appends to it.
\<close>

definition ctx_A :: Context where
  "ctx_A = \<lparr>cursor = Some 0, offset = 10, limit = 25,
            lastBlock = Some \<lparr>header_height = 22\<rparr>, lastResult = None, watch = Some True\<rparr>"

definition ws_A :: "window list" where
  "ws_A = [\<lparr>from_w = 0, to_w = 10\<rparr>, \<lparr>from_w = 10, to_w = 20\<rparr>, \<lparr>from_w = 20, to_w = 22\<rparr>]"


definition ctx_neg :: Context where
  "ctx_neg = \<lparr>cursor = Some 50, offset = - 10, limit = 25,
              lastBlock = Some \<lparr>header_height = 22\<rparr>, lastResult = None, watch = None\<rparr>"

definition ctx_zero :: Context where
  "ctx_zero = \<lparr>cursor = Some 0, offset = 10, limit = 25,
               lastBlock = Some \<lparr>header_height = 0\<rparr>, lastResult = None, watch = Some True\<rparr>"

definition env_prod :: env where
  "env_prod = \<lparr>IS_DEV_TEST = False, SYNC_OFFSET = 10, SYNC_LIMIT = 25\<rparr>"

definition env_dev :: env where
  "env_dev = \<lparr>IS_DEV_TEST = True, SYNC_OFFSET = 10, SYNC_LIMIT = 25\<rparr>"

definition node_page :: "int \<Rightarrow> int \<Rightarrow> error + fetched" where
  "node_page n start =
     Inr \<lparr>blocks = map (\<lambda>h. Some \<lparr>header_height = h\<rparr>) [start + 1..min (start + n) 22],
          node_endCursor = Some (max start (min (start + n) 22))\<rparr>"

definition collab_ok :: "GQLBlock option list collab" where
  "collab_ok =
     \<lparr>latestBlockFromNode = Inr \<lparr>header_height = 22\<rparr>,
      blocksFromNode = node_page,
      insertMany = (\<lambda>bs table. Inr (table @ bs)),
      push_error = (\<lambda>item. None),
      commit_error = (\<lambda>staged. None)\<rparr>"

definition world_empty :: "GQLBlock option list world" where
  "world_empty = \<lparr>db = [], queue = [], requests = [], console = [], calls = []\<rparr>"

text \<open>The same collaborators with a database whose commit fails.\<close>

definition collab_commit_fails :: "GQLBlock option list collab" where
  "collab_commit_fails = collab_ok\<lparr>commit_error := (\<lambda>staged. Some (Failure ''commit failed''))\<rparr>"

text \<open>The same collaborators with a block store whose insert fails.\<close>

definition collab_insert_fails :: "GQLBlock option list collab" where
  "collab_insert_fails =
     collab_ok\<lparr>insertMany := (\<lambda>bs table. Inl (Failure ''insert failed''))\<rparr>"

text \<open>A job that starts above the head of the chain, in watch mode.\<close>

definition input_ahead :: Input where
  "input_ahead = \<lparr>cursor_in = Some 50, offset_in = None, watch_in = Some True\<rparr>"

definition ctx_ahead :: Context where
  "ctx_ahead = \<lparr>cursor = Some 50, offset = 10, limit = 25,
                lastBlock = Some \<lparr>header_height = 22\<rparr>,
                lastResult = Some \<lparr>endCursor = Some 50, hasBlocks = False\<rparr>,
                watch = Some True\<rparr>"

text \<open>A job from height 0 in watch mode, against a chain that is still empty.\<close>

definition input_zero :: Input where
  "input_zero = \<lparr>cursor_in = None, offset_in = None, watch_in = Some True\<rparr>"

text \<open>A node that cannot be reached.\<close>

definition collab_down :: "GQLBlock option list collab" where
  "collab_down = collab_ok\<lparr>latestBlockFromNode := Inl (Failure ''node unreachable'')\<rparr>"

text \<open>
  Scenario B of the spec: a job whose cursor is at the head, with and without watch
  mode, and the events of its first round.
\<close>

definition input_B :: Input where
  "input_B = \<lparr>cursor_in = Some 22, offset_in = None, watch_in = Some True\<rparr>"

definition input_once :: Input where
  "input_once = \<lparr>cursor_in = Some 22, offset_in = None, watch_in = None\<rparr>"

definition ctx_B :: Context where
  "ctx_B = \<lparr>cursor = Some 22, offset = 10, limit = 25,
            lastBlock = Some \<lparr>header_height = 22\<rparr>, lastResult = None, watch = Some True\<rparr>"

definition evs_B :: "event list" where
  "evs_B = [START_SYNC, done_getLatestBlock \<lparr>header_height = 22\<rparr>,
            done_syncBlocks (Some \<lparr>endCursor = Some 22, hasBlocks = False\<rparr>)]"

text \<open>
  A \<open>toDBItem\<close> for \<open>upsertMany\<close>: blocks are heights, transactions are hashes, the key of
  a row is the hash and its data the hash and the height.
\<close>

definition toDBItem_hash :: "nat \<Rightarrow> string \<Rightarrow> nat \<Rightarrow> (string \<times> nat, nat) db_item" where
  "toDBItem_hash b t index = \<lparr>item_id = t, item_data = (t, b), item_rest = index\<rparr>"

section \<open>The windows of one planning round\<close>

lemma ceil_div_bounds:
  fixes a b :: int
  assumes "0 < b"
  shows "a \<le> (- ((- a) div b)) * b" and "(- ((- a) div b) - 1) * b < a"
proof -
  define q where "q = (- a) div b"
  define r where "r = (- a) mod b"
  have eq: "- a = q * b + r" unfolding q_def r_def by simp
  have m0: "0 \<le> r" and m1: "r < b" using assms unfolding r_def by simp_all
  have e1: "(- q) * b = a + r" using eq by (simp add: algebra_simps)
  have e2: "(- q - 1) * b = a + r - b" using eq by (simp add: algebra_simps)
  show "a \<le> (- ((- a) div b)) * b" using e1 m0 unfolding q_def by linarith
  show "(- ((- a) div b) - 1) * b < a" using e2 m1 unfolding q_def by linarith
qed




lemma createBatchEvents_Inr:
  assumes "createBatchEvents ctx = Inr ws"
  shows "ws = map (batch_window ctx) [0..<length ws]"
  using assms by (auto simp: createBatchEvents_def split: sum.splits)

lemma planned_nth:
  assumes "createBatchEvents ctx = Inr ws" and "i < length ws"
  shows "ws ! i = batch_window ctx i"
proof -
  obtain n where ws: "ws = map (batch_window ctx) [0..<n]"
    using assms(1) by (auto simp: createBatchEvents_def split: sum.splits)
  then have "i < n" using assms(2) by simp
  then show ?thesis by (simp add: ws)
qed

lemma from_w_batch_window:
  "from_w (batch_window ctx page) = cursor_of ctx + int page * offset ctx"
  by (simp add: batch_window_def getIdsRange_def Let_def)

lemma to_w_batch_window:
  "to_w (batch_window ctx page) =
     min (cursor_of ctx + int (Suc page) * offset ctx) (getLastBlockHeight ctx)"
  by (simp add: batch_window_def getIdsRange_def Let_def min_def algebra_simps)

lemma planned_diff:
  "to_w (getIdsRange ctx) - from_w (getIdsRange ctx) =
     min (cursor_of ctx + limit ctx) (getLastBlockHeight ctx) - cursor_of ctx"
  by (simp add: getIdsRange_def Let_def min_def)

lemma createBatchEvents_length:
  assumes off: "0 < offset ctx" and ok: "createBatchEvents ctx = Inr ws"
  defines "d \<equiv> min (cursor_of ctx + limit ctx) (getLastBlockHeight ctx) - cursor_of ctx"
  shows "d \<le> int (length ws) * offset ctx"
    and "ws \<noteq> [] \<Longrightarrow> (int (length ws) - 1) * offset ctx < d"
proof -
  define k where "k = - ((- d) div offset ctx)"
  have "numberOfBatches ctx = ceil_div d (offset ctx)"
    unfolding numberOfBatches_def Let_def planned_diff d_def ..
  then have nb: "numberOfBatches ctx = Num k"
    using off by (simp add: ceil_div_def k_def)
  have len: "length ws = (if k \<le> 0 then 0 else nat k)"
    using ok nb by (auto simp: createBatchEvents_def array_from_length_def split: if_splits)
  have b1: "d \<le> k * offset ctx" and b2: "(k - 1) * offset ctx < d"
    using ceil_div_bounds[OF off, of d] by (simp_all add: k_def)
  show "d \<le> int (length ws) * offset ctx"
  proof (cases "k \<le> 0")
    case True
    have "k * offset ctx \<le> 0" using True off by (simp add: mult_le_0_iff)
    then show ?thesis using b1 len True by simp
  next
    case False
    then show ?thesis using b1 len by simp
  qed
  show "(int (length ws) - 1) * offset ctx < d" if "ws \<noteq> []"
  proof -
    have "\<not> k \<le> 0" using that len by (auto split: if_splits)
    then show ?thesis using b2 len by simp
  qed
qed

text \<open>
  Planning returns whenever the batch size is positive and the page size asks for at
  most \<open>2 ^ 32 - 1\<close> windows; with a batch size of 0 and heights left to fetch it throws.
\<close>

lemma createBatchEvents_returns:
  assumes off: "0 < offset ctx" and lim: "limit ctx \<le> 4294967295 * offset ctx"
  shows "\<exists>ws. createBatchEvents ctx = Inr ws"
proof -
  define d where "d = min (cursor_of ctx + limit ctx) (getLastBlockHeight ctx) - cursor_of ctx"
  define k where "k = - ((- d) div offset ctx)"
  have "numberOfBatches ctx = ceil_div d (offset ctx)"
    unfolding numberOfBatches_def Let_def planned_diff d_def ..
  then have nb: "numberOfBatches ctx = Num k"
    using off by (simp add: ceil_div_def k_def)
  have "(k - 1) * offset ctx < d" using ceil_div_bounds[OF off, of d] by (simp add: k_def)
  moreover have "d \<le> limit ctx" by (simp add: d_def)
  ultimately have "(k - 1) * offset ctx < 4294967295 * offset ctx" using lim by linarith
  then have "k - 1 < 4294967295" using off by (simp add: mult_less_cancel_right)
  then have "k \<le> 4294967295" by simp
  then show ?thesis using nb by (simp add: createBatchEvents_def array_from_length_def)
qed

lemma createBatchEvents_offset_0:
  assumes "offset ctx = 0" and "cursor_of ctx < getLastBlockHeight ctx" and "0 < limit ctx"
  shows "createBatchEvents ctx = Inl RangeError"
  using assms
  by (simp add: createBatchEvents_def numberOfBatches_def getIdsRange_def Let_def ceil_div_def
      array_from_length_def)


lemma createBatchEvents_ctx_A: "createBatchEvents ctx_A = Inr ws_A"
  by (simp add: createBatchEvents_def numberOfBatches_def getIdsRange_def Let_def ceil_div_def
      array_from_length_def batch_window_def getLastBlockHeight_def cursor_of_def ctx_A_def
      ws_A_def upt_rec)



section \<open>No window past the head\<close>

text \<open>
  C6. Every window of a planning round ends at or below the head the context holds:
  \<open>window.to \<le> head\<close>, for any cursor, batch size and page size.
\<close>

theorem createBatchEvents_to_le_head:
  assumes "createBatchEvents ctx = Inr ws" and "w \<in> set ws"
  shows "to_w w \<le> getLastBlockHeight ctx"
proof -
  have "ws = map (batch_window ctx) [0..<length ws]"
    using createBatchEvents_Inr[OF assms(1)] .
  then obtain page where "w = batch_window ctx page"
    using assms(2) by (metis (no_types, lifting) imageE list.set_map)
  then show ?thesis by (simp add: batch_window_def Let_def)
qed

theorem createBatchEvents_to_le_head_witness:
  "createBatchEvents ctx_A = Inr ws_A \<and> \<lparr>from_w = 20, to_w = 22\<rparr> \<in> set ws_A \<and>
   to_w \<lparr>from_w = 20, to_w = 22\<rparr> \<le> getLastBlockHeight ctx_A"
proof -
  have m: "\<lparr>from_w = 20, to_w = 22\<rparr> \<in> set ws_A" by (simp add: ws_A_def)
  show ?thesis
    using createBatchEvents_ctx_A m createBatchEvents_to_le_head[OF createBatchEvents_ctx_A m]
    by simp
qed

section \<open>A round with nothing to plan at cursor 0\<close>

lemma createBatchEvents_nothing:
  assumes c0: "cursor_of ctx = 0" and h0: "getLastBlockHeight ctx = 0"
    and cfg: "0 \<le> limit ctx \<or> 0 \<le> offset ctx"
  shows "createBatchEvents ctx = Inr []"
proof -
  define d where "d = (if 0 < limit ctx then 0 else limit ctx)"
  have nb: "numberOfBatches ctx = ceil_div d (offset ctx)"
    using c0 h0 by (simp add: numberOfBatches_def getIdsRange_def Let_def d_def)
  have dle: "d \<le> 0" by (simp add: d_def)
  show ?thesis
  proof (cases "offset ctx = 0")
    case True
    then show ?thesis
      using nb dle by (simp add: createBatchEvents_def ceil_div_def array_from_length_def)
  next
    case False
    have "- ((- d) div offset ctx) \<le> 0"
    proof (cases "d = 0")
      case True
      then show ?thesis by simp
    next
      case nz: False
      then have "limit ctx < 0" by (auto simp: d_def split: if_splits)
      then have "0 < offset ctx" using cfg False by linarith
      moreover have "0 \<le> - d" using dle by simp
      ultimately have "0 \<le> (- d) div offset ctx" by (simp add: pos_imp_zdiv_nonneg_iff)
      then show ?thesis by simp
    qed
    then show ?thesis
      using nb False by (simp add: createBatchEvents_def ceil_div_def array_from_length_def)
  qed
qed

lemma run_parallel_Nil: "run_parallel env c delay [] world = (Inr [], world)"
  by (simp add: run_parallel_def completion_order_def)

text \<open>
  C2, as the code has it. With cursor 0 and head 0 (and a page size and a batch size
  that are not both negative) the planner yields no window, and \<open>syncBlocks\<close> returns no
  result at all: \<open>results[results.length - 1]\<close> of an empty array is undefined, and the
  \<open>hasBlocks = false\<close> record is built only when \<open>cursor > 0\<close>. Nothing is fetched, stored
  or enqueued. The machine reads the missing result as no more blocks and keeps the
  cursor.
\<close>

theorem syncBlocks_nothing_planned:
  assumes c0: "cursor_of ctx = 0" and h0: "getLastBlockHeight ctx = 0"
    and cfg: "0 \<le> limit ctx \<or> 0 \<le> offset ctx"
  shows "createBatchEvents ctx = Inr [] \<and>
         syncBlocks env c delay ctx world = (Inr None, world) \<and>
         \<not> hasMoreEvents (assign_result ctx None) \<and>
         cursor (assign_result ctx None) = cursor ctx"
proof -
  have ev: "createBatchEvents ctx = Inr []" using createBatchEvents_nothing[OF assms] .
  have "syncBlocks env c delay ctx world = (Inr None, world)"
    using ev c0 by (simp add: syncBlocks_def run_parallel_Nil last_result_def)
  then show ?thesis using ev by (simp add: hasMoreEvents_def assign_result_def)
qed

theorem syncBlocks_nothing_planned_witness:
  "cursor_of ctx_zero = 0 \<and> getLastBlockHeight ctx_zero = 0 \<and> createBatchEvents ctx_zero = Inr [] \<and>
   syncBlocks env_dev collab_ok (\<lambda>i. 0) ctx_zero world_empty = (Inr None, world_empty)"
proof -
  have c0: "cursor_of ctx_zero = 0" by (simp add: cursor_of_def ctx_zero_def)
  have h0: "getLastBlockHeight ctx_zero = 0" by (simp add: getLastBlockHeight_def ctx_zero_def)
  have cfg: "0 \<le> limit ctx_zero \<or> 0 \<le> offset ctx_zero" by (simp add: ctx_zero_def)
  show ?thesis
    using c0 h0 syncBlocks_nothing_planned[OF c0 h0 cfg, of env_dev collab_ok "\<lambda>i. 0" world_empty]
    by simp
qed

text \<open>
  C2 as stated fails: at cursor 0 and head 0 the value of \<open>syncBlocks\<close> is undefined, not
  a round result with \<open>hasBlocks = false\<close>.
\<close>

theorem syncBlocks_returns_undefined:
  "cursor_of ctx_zero = 0 \<and> getLastBlockHeight ctx_zero = 0 \<and>
   fst (syncBlocks env_prod collab_ok (\<lambda>i. 0) ctx_zero world_empty) = Inr None"
  by (simp add: syncBlocks_def createBatchEvents_def numberOfBatches_def getIdsRange_def Let_def
      ceil_div_def array_from_length_def getLastBlockHeight_def cursor_of_def ctx_zero_def
      run_parallel_Nil last_result_def env_prod_def)

section \<open>The result of a round\<close>

lemma syncBlocksRange_finish_outcome:
  assumes "syncBlocksRange_finish env c w world = (Inr r, world')"
  shows "range_outcome env c w = Some r"
  using assms
  by (auto simp: syncBlocksRange_finish_def syncBlocksRange_body_def range_outcome_def
      transaction_def persist_def queue_push_def Let_def
      split: if_splits sum.splits option.splits prod.splits)

lemma syncBlocksRange_outcome:
  assumes "syncBlocksRange env c w world = (Inr r, world')"
  shows "range_outcome env c w = Some r"
  using assms syncBlocksRange_finish_outcome unfolding syncBlocksRange_def by blast

lemma run_sequential_outcomes:
  "run_sequential env c events results world = (Inr rs, world') \<Longrightarrow>
   map Some rs = map Some results @ map (range_outcome env c) events"
proof (induction events arbitrary: results world)
  case Nil
  then show ?case by simp
next
  case (Cons event events)
  from Cons.prems obtain r world1 where
    one: "syncBlocksRange env c event world = (Inr r, world1)" and
    rest: "run_sequential env c events (results @ [r]) world1 = (Inr rs, world')"
    by (auto split: prod.splits sum.splits)
  show ?case
    using Cons.IH[OF rest] syncBlocksRange_outcome[OF one] by simp
qed

lemma settle_all_rejected:
  "settle_all env c events order p world = (p', world') \<Longrightarrow> rejection p \<noteq> None \<Longrightarrow>
   rejection p' \<noteq> None"
proof (induction order arbitrary: p world)
  case Nil
  then show ?case by simp
next
  case (Cons i order)
  obtain res world1 where fin: "syncBlocksRange_finish env c (events ! i) world = (res, world1)"
    by (cases "syncBlocksRange_finish env c (events ! i) world")
  show ?case
  proof (cases res)
    case (Inl e)
    define p1 where
      "p1 = p\<lparr>rejection := (case rejection p of None \<Rightarrow> Some e | Some e0 \<Rightarrow> Some e0)\<rparr>"
    have st: "settle_all env c events order p1 world1 = (p', world')"
      using Cons.prems(1) fin Inl by (simp add: p1_def)
    have "rejection p1 \<noteq> None" by (simp add: p1_def split: option.splits)
    then show ?thesis using Cons.IH[OF st] by simp
  next
    case (Inr r)
    define p1 where "p1 = p\<lparr>slots := (slots p)[i := Some r]\<rparr>"
    have st: "settle_all env c events order p1 world1 = (p', world')"
      using Cons.prems(1) fin Inr by (simp add: p1_def)
    have "rejection p1 \<noteq> None" using Cons.prems(2) by (simp add: p1_def)
    then show ?thesis using Cons.IH[OF st] by simp
  qed
qed

lemma settle_all_slots:
  "settle_all env c events order p world = (p', world') \<Longrightarrow> rejection p' = None \<Longrightarrow>
   length (slots p') = length (slots p) \<and>
   (\<forall>i \<in> set order. range_outcome env c (events ! i) \<noteq> None) \<and>
   (\<forall>i < length (slots p). slots p' ! i =
      (if i \<in> set order then range_outcome env c (events ! i) else slots p ! i))"
proof (induction order arbitrary: p world)
  case Nil
  then show ?case by simp
next
  case (Cons j order)
  obtain res world1 where fin: "syncBlocksRange_finish env c (events ! j) world = (res, world1)"
    by (cases "syncBlocksRange_finish env c (events ! j) world")
  show ?case
  proof (cases res)
    case (Inl e)
    define p1 where
      "p1 = p\<lparr>rejection := (case rejection p of None \<Rightarrow> Some e | Some e0 \<Rightarrow> Some e0)\<rparr>"
    have st: "settle_all env c events order p1 world1 = (p', world')"
      using Cons.prems(1) fin Inl by (simp add: p1_def)
    have "rejection p1 \<noteq> None" by (simp add: p1_def split: option.splits)
    then have "rejection p' \<noteq> None" using settle_all_rejected[OF st] by simp
    then show ?thesis using Cons.prems(2) by simp
  next
    case (Inr r)
    define p1 where "p1 = p\<lparr>slots := (slots p)[j := Some r]\<rparr>"
    have st: "settle_all env c events order p1 world1 = (p', world')"
      using Cons.prems(1) fin Inr by (simp add: p1_def)
    have out: "range_outcome env c (events ! j) = Some r"
      using syncBlocksRange_finish_outcome fin Inr by blast
    have ih: "length (slots p') = length (slots p1) \<and>
      (\<forall>i \<in> set order. range_outcome env c (events ! i) \<noteq> None) \<and>
      (\<forall>i < length (slots p1). slots p' ! i =
        (if i \<in> set order then range_outcome env c (events ! i) else slots p1 ! i))"
      using Cons.IH[OF st Cons.prems(2)] .
    have len: "length (slots p1) = length (slots p)" by (simp add: p1_def)
    show ?thesis
    proof (intro conjI allI impI ballI)
      show "length (slots p') = length (slots p)" using ih len by simp
    next
      fix i assume "i \<in> set (j # order)"
      then show "range_outcome env c (events ! i) \<noteq> None" using ih out by auto
    next
      fix i assume i: "i < length (slots p)"
      then have a: "slots p' ! i =
        (if i \<in> set order then range_outcome env c (events ! i) else slots p1 ! i)"
        using ih len by simp
      show "slots p' ! i =
        (if i \<in> set (j # order) then range_outcome env c (events ! i) else slots p ! i)"
      proof (cases "i = j")
        case True
        then show ?thesis using a out i by (simp add: p1_def)
      next
        case False
        then show ?thesis using a by (simp add: p1_def)
      qed
    qed
  qed
qed

lemma set_completion_order: "set (completion_order delay n) = {0..<n}"
  by (simp add: completion_order_def)

lemma run_parallel_outcomes:
  assumes "run_parallel env c delay events world = (Inr results, world')"
  shows "results = map (range_outcome env c) events \<and> None \<notin> set results"
proof -
  define world1 where "world1 = foldl (\<lambda>wo event. syncBlocksRange_start env event wo) world events"
  define p0 :: promise_all where "p0 = \<lparr>slots = replicate (length events) None, rejection = None\<rparr>"
  obtain p world2 where
    st: "settle_all env c events (completion_order delay (length events)) p0 world1 = (p, world2)"
    by (cases "settle_all env c events (completion_order delay (length events)) p0 world1")
  have rej: "rejection p = None" and res: "results = slots p"
    using assms st by (auto simp: run_parallel_def Let_def world1_def p0_def split: option.splits)
  have sl: "length (slots p) = length (slots p0) \<and>
     (\<forall>i \<in> set (completion_order delay (length events)).
        range_outcome env c (events ! i) \<noteq> None) \<and>
     (\<forall>i < length (slots p0). slots p ! i =
        (if i \<in> set (completion_order delay (length events))
         then range_outcome env c (events ! i) else slots p0 ! i))"
    using settle_all_slots[OF st rej] .
  have len: "length (slots p) = length events" using sl by (simp add: p0_def)
  have nth: "slots p ! i = range_outcome env c (events ! i)" if "i < length events" for i
    using sl that by (simp add: p0_def set_completion_order)
  have some: "range_outcome env c (events ! i) \<noteq> None" if "i < length events" for i
    using sl that by (simp add: set_completion_order)
  have eq: "results = map (range_outcome env c) events"
    using len res nth by (simp add: list_eq_iff_nth_eq)
  have "None \<notin> set results"
  proof
    assume "None \<in> set results"
    then obtain i where "i < length results" and "results ! i = None"
      by (auto simp: in_set_conv_nth)
    then show False using some[of i] eq by simp
  qed
  then show ?thesis using eq by simp
qed

lemma syncBlocks_outcome:
  assumes plan: "createBatchEvents ctx = Inr ws" and ne: "ws \<noteq> []"
    and round: "syncBlocks env c delay ctx world = (Inr output, world')"
  shows "output = range_outcome env c (last ws) \<and> output \<noteq> None"
proof (cases "IS_DEV_TEST env")
  case True
  then obtain rs where rs: "run_sequential env c ws [] world = (Inr rs, world')"
    and out: "output = last_result (map Some rs)"
    using plan ne round by (auto simp: syncBlocks_def split: prod.splits sum.splits)
  have eq: "map Some rs = map (range_outcome env c) ws"
    using run_sequential_outcomes[OF rs] by simp
  then have nn: "rs \<noteq> []" using ne by auto
  then have o1: "output = Some (last rs)"
    using out by (simp add: last_result_def last_map)
  have "last (map Some rs) = last (map (range_outcome env c) ws)" using eq by simp
  then have "Some (last rs) = range_outcome env c (last ws)"
    using nn ne by (simp add: last_map)
  then show ?thesis using o1 by (metis option.distinct(1))
next
  case False
  then obtain results where rp: "run_parallel env c delay ws world = (Inr results, world')"
    and out: "output = last_result results"
    using plan ne round by (auto simp: syncBlocks_def split: prod.splits sum.splits)
  have eq: "results = map (range_outcome env c) ws" and some: "None \<notin> set results"
    using run_parallel_outcomes[OF rp] by blast+
  have rne: "results \<noteq> []" using eq ne by simp
  have o: "output = last results" using out rne by (simp add: last_result_def)
  then have "output = range_outcome env c (last ws)" using eq ne by (simp add: last_map)
  moreover have "output \<in> set results" using o rne by simp
  ultimately show ?thesis using some by metis
qed

lemma last_window_highest:
  assumes off: "0 < offset ctx" and plan: "createBatchEvents ctx = Inr ws" and w: "w \<in> set ws"
  shows "from_w w \<le> from_w (last ws)"
proof -
  have ne: "ws \<noteq> []" using w by auto
  obtain i where i: "i < length ws" and wi: "w = ws ! i" using w by (auto simp: in_set_conv_nth)
  have nth: "ws ! k = batch_window ctx k" if "k < length ws" for k
    using planned_nth[OF plan that] .
  have l: "last ws = batch_window ctx (length ws - 1)"
    using ne nth[of "length ws - 1"] by (simp add: last_conv_nth)
  have "int i \<le> int (length ws - 1)" using i by linarith
  then have "int i * offset ctx \<le> int (length ws - 1) * offset ctx"
    using off by (simp add: mult_right_mono)
  then show ?thesis
    using i by (simp add: wi nth l batch_window_def getIdsRange_def Let_def)
qed

text \<open>
  C3, as the code has it. A round with a non-empty plan that returns a result returns
  the result of the last-planned window, whatever the order in which the windows
  complete (any \<open>delay\<close>). That window is the highest one when the batch size is
  positive; the code does not check the batch size. The machine records the result as
  \<open>lastResult\<close> and sets the cursor to its \<open>endCursor\<close>, keeping the prior cursor when
  \<open>endCursor\<close> is absent.
\<close>

theorem round_result_is_last_window:
  assumes plan: "createBatchEvents ctx = Inr ws" and ne: "ws \<noteq> []"
    and round: "syncBlocks env c delay ctx world = (Inr output, world')"
    and s: "snap_value s = syncingBlocks \<and> snap_status s = active \<and> snap_context s = ctx"
  shows "\<exists>r. output = Some r \<and> range_outcome env c (last ws) = Some r \<and>
           (0 < offset ctx \<longrightarrow> (\<forall>w \<in> set ws. from_w w \<le> from_w (last ws))) \<and>
           lastResult (snap_context (transition s (done_syncBlocks output))) = Some r \<and>
           cursor (snap_context (transition s (done_syncBlocks output))) =
             (case endCursor r of None \<Rightarrow> cursor ctx | Some e \<Rightarrow> Some e)"
proof -
  have o: "output = range_outcome env c (last ws)" and nn: "output \<noteq> None"
    using syncBlocks_outcome[OF plan ne round] by blast+
  then obtain r where r: "output = Some r" by auto
  have hi: "0 < offset ctx \<longrightarrow> (\<forall>w \<in> set ws. from_w w \<le> from_w (last ws))"
    using last_window_highest[OF _ plan] by blast
  have ctx': "snap_context (transition s (done_syncBlocks out)) = assign_result ctx out" for out
    using s by (simp add: transition_def Let_def)
  show ?thesis
    using r o hi by (simp add: ctx' assign_result_def)
qed

lemma syncBlocks_ctx_A:
  "fst (syncBlocks env_prod collab_ok (\<lambda>i. 3 - i) ctx_A world_empty) =
     Inr (Some \<lparr>endCursor = Some 22, hasBlocks = True\<rparr>)"
  by (simp add: syncBlocks_def createBatchEvents_def numberOfBatches_def getIdsRange_def Let_def
      ceil_div_def array_from_length_def batch_window_def getLastBlockHeight_def cursor_of_def
      ctx_A_def env_prod_def run_parallel_def completion_order_def upt_rec
      syncBlocksRange_start_def syncBlocksRange_finish_def syncBlocksRange_body_def
      transaction_def persist_def queue_push_def collab_ok_def node_page_def world_empty_def
      last_result_def
      split: prod.splits)


theorem round_result_is_last_window_witness:
  "createBatchEvents ctx_A = Inr ws_A \<and> ws_A \<noteq> [] \<and>
   fst (syncBlocks env_prod collab_ok (\<lambda>i. 3 - i) ctx_A world_empty) =
     Inr (Some \<lparr>endCursor = Some 22, hasBlocks = True\<rparr>) \<and>
   range_outcome env_prod collab_ok (last ws_A) = Some \<lparr>endCursor = Some 22, hasBlocks = True\<rparr> \<and>
   cursor (snap_context (transition
       \<lparr>snap_value = syncingBlocks, snap_context = ctx_A, snap_status = active\<rparr>
       (done_syncBlocks (Some \<lparr>endCursor = Some 22, hasBlocks = True\<rparr>)))) = Some 22"
proof -
  let ?s = "\<lparr>snap_value = syncingBlocks, snap_context = ctx_A, snap_status = active\<rparr>"
  let ?r = "\<lparr>endCursor = Some 22, hasBlocks = True\<rparr>"
  have ne: "ws_A \<noteq> []" by (simp add: ws_A_def)
  have round: "syncBlocks env_prod collab_ok (\<lambda>i. 3 - i) ctx_A world_empty =
      (Inr (Some ?r), snd (syncBlocks env_prod collab_ok (\<lambda>i. 3 - i) ctx_A world_empty))"
    using syncBlocks_ctx_A by (metis prod.collapse)
  have s: "snap_value ?s = syncingBlocks \<and> snap_status ?s = active \<and> snap_context ?s = ctx_A"
    by simp
  obtain r where r: "Some ?r = Some r"
    and out: "range_outcome env_prod collab_ok (last ws_A) = Some r"
    and cur: "cursor (snap_context (transition ?s (done_syncBlocks (Some ?r)))) =
                (case endCursor r of None \<Rightarrow> cursor ctx_A | Some e \<Rightarrow> Some e)"
    using round_result_is_last_window[OF createBatchEvents_ctx_A ne round s] by blast
  have "r = ?r" using r by simp
  then show ?thesis
    using createBatchEvents_ctx_A ne syncBlocks_ctx_A out cur by simp
qed

text \<open>
  C3 as stated fails: with cursor 50, batch size -10, page size 25 and head 22 the plan
  is not empty, and its last-planned window, whose result the round returns, is the
  lowest window, not the highest.
\<close>

theorem last_planned_window_lowest:
  "createBatchEvents ctx_neg =
     Inr [\<lparr>from_w = 50, to_w = 22\<rparr>, \<lparr>from_w = 40, to_w = 22\<rparr>, \<lparr>from_w = 30, to_w = 20\<rparr>] \<and>
   fst (syncBlocks env_dev collab_ok (\<lambda>i. 0) ctx_neg world_empty) =
     Inr (Some \<lparr>endCursor = Some 20, hasBlocks = True\<rparr>) \<and>
   range_outcome env_dev collab_ok \<lparr>from_w = 30, to_w = 20\<rparr> =
     Some \<lparr>endCursor = Some 20, hasBlocks = True\<rparr> \<and>
   from_w \<lparr>from_w = 30, to_w = 20\<rparr> < from_w \<lparr>from_w = 40, to_w = 22\<rparr> \<and>
   from_w \<lparr>from_w = 30, to_w = 20\<rparr> < from_w \<lparr>from_w = 50, to_w = 22\<rparr>"
proof -
  have plan: "createBatchEvents ctx_neg =
     Inr [\<lparr>from_w = 50, to_w = 22\<rparr>, \<lparr>from_w = 40, to_w = 22\<rparr>, \<lparr>from_w = 30, to_w = 20\<rparr>]"
    by (simp add: createBatchEvents_def numberOfBatches_def getIdsRange_def Let_def ceil_div_def
        array_from_length_def batch_window_def getLastBlockHeight_def cursor_of_def ctx_neg_def
        upt_rec)
  have round: "fst (syncBlocks env_dev collab_ok (\<lambda>i. 0) ctx_neg world_empty) =
     Inr (Some \<lparr>endCursor = Some 20, hasBlocks = True\<rparr>)"
    by (simp add: syncBlocks_def plan env_dev_def syncBlocksRange_def
        syncBlocksRange_start_def syncBlocksRange_finish_def syncBlocksRange_body_def Let_def
        last_result_def)
  show ?thesis using plan round by (simp add: range_outcome_def env_dev_def)
qed

section \<open>The \<open>IS_DEV_TEST\<close> mode\<close>

lemma syncBlocksRange_dev:
  assumes "IS_DEV_TEST env"
  shows "syncBlocksRange env c w world =
     (Inr \<lparr>endCursor = Some (to_w w), hasBlocks = True\<rparr>,
      world\<lparr>console := console world @ [LogSyncing (from_w w) (to_w w)],
            calls := calls world @ [Called w, Settled w]\<rparr>)"
  using assms
  by (simp add: syncBlocksRange_def syncBlocksRange_start_def syncBlocksRange_finish_def
      syncBlocksRange_body_def Let_def)

lemma run_sequential_dev:
  assumes "IS_DEV_TEST env"
  shows "run_sequential env c events results world =
     (Inr (results @ map (\<lambda>w. \<lparr>endCursor = Some (to_w w), hasBlocks = True\<rparr>) events),
      foldl (\<lambda>wo w. snd (syncBlocksRange env c w wo)) world events)"
proof (induction events arbitrary: results world)
  case Nil
  then show ?case by simp
next
  case (Cons event events)
  show ?case
    by (simp add: syncBlocksRange_dev[OF assms] Cons.IH)
qed

lemma calls_sequential_dev:
  assumes "IS_DEV_TEST env"
  shows "calls (foldl (\<lambda>wo w. snd (syncBlocksRange env c w wo)) world events) =
     calls world @ concat (map (\<lambda>w. [Called w, Settled w]) events)"
proof (induction events arbitrary: world)
  case Nil
  then show ?case by simp
next
  case (Cons event events)
  show ?case
    using Cons.IH[of "snd (syncBlocksRange env c event world)"]
    by (simp add: syncBlocksRange_dev[OF assms])
qed

text \<open>
  Without the flag a round calls \<open>syncBlocksRange\<close> for every window before any of the
  calls settles, and the calls settle in completion order.
\<close>

lemma calls_syncBlocksRange_body:
  "calls (snd (syncBlocksRange_body env c w world)) = calls world"
  by (auto simp: syncBlocksRange_body_def transaction_def persist_def queue_push_def Let_def
      split: sum.splits option.splits prod.splits)

lemma calls_syncBlocksRange_finish:
  "calls (snd (syncBlocksRange_finish env c w world)) = calls world @ [Settled w]"
proof -
  obtain r world' where b: "syncBlocksRange_body env c w world = (r, world')"
    by (cases "syncBlocksRange_body env c w world")
  then have "calls world' = calls world"
    using calls_syncBlocksRange_body[of env c w world] by simp
  then show ?thesis by (simp add: syncBlocksRange_finish_def b)
qed

lemma calls_settle_all:
  "calls (snd (settle_all env c events order p world)) =
     calls world @ map (\<lambda>i. Settled (events ! i)) order"
proof (induction order arbitrary: p world)
  case Nil
  then show ?case by simp
next
  case (Cons i order)
  obtain res world1 where fin: "syncBlocksRange_finish env c (events ! i) world = (res, world1)"
    by (cases "syncBlocksRange_finish env c (events ! i) world")
  have c1: "calls world1 = calls world @ [Settled (events ! i)]"
    using calls_syncBlocksRange_finish[of env c "events ! i" world] fin by simp
  show ?case
    by (cases res) (simp_all add: fin Cons.IH c1)
qed

lemma calls_start_all:
  "calls (foldl (\<lambda>wo event. syncBlocksRange_start env event wo) world events) =
     calls world @ map Called events"
  by (induction events arbitrary: world) (simp_all add: syncBlocksRange_start_def Let_def)

lemma calls_run_parallel:
  "calls (snd (run_parallel env c delay events world)) =
     calls world @ map Called events @
       map (\<lambda>i. Settled (events ! i)) (completion_order delay (length events))"
proof -
  define world1 where
    "world1 = foldl (\<lambda>wo event. syncBlocksRange_start env event wo) world events"
  define p0 :: promise_all where
    "p0 = \<lparr>slots = replicate (length events) None, rejection = None\<rparr>"
  obtain p world2 where
    st: "settle_all env c events (completion_order delay (length events)) p0 world1 = (p, world2)"
    by (cases "settle_all env c events (completion_order delay (length events)) p0 world1")
  have "calls world2 = calls world1 @
      map (\<lambda>i. Settled (events ! i)) (completion_order delay (length events))"
    using calls_settle_all[of env c events "completion_order delay (length events)" p0 world1] st
    by simp
  moreover have "calls world1 = calls world @ map Called events"
    by (simp add: world1_def calls_start_all)
  moreover have "snd (run_parallel env c delay events world) = world2"
    using st by (simp add: run_parallel_def Let_def world1_def p0_def split: option.splits)
  ultimately show ?thesis by simp
qed

lemma calls_parallel_ctx_A:
  "calls (snd (syncBlocks env_prod collab_ok (\<lambda>i. 3 - i) ctx_A world_empty)) =
     [Called \<lparr>from_w = 0, to_w = 10\<rparr>, Called \<lparr>from_w = 10, to_w = 20\<rparr>,
      Called \<lparr>from_w = 20, to_w = 22\<rparr>, Settled \<lparr>from_w = 20, to_w = 22\<rparr>,
      Settled \<lparr>from_w = 10, to_w = 20\<rparr>, Settled \<lparr>from_w = 0, to_w = 10\<rparr>]"
proof -
  have "snd (syncBlocks env_prod collab_ok (\<lambda>i. 3 - i) ctx_A world_empty) =
      snd (run_parallel env_prod collab_ok (\<lambda>i. 3 - i) ws_A world_empty)"
    by (simp add: syncBlocks_def createBatchEvents_ctx_A ws_A_def env_prod_def
        split: prod.splits sum.splits)
  then show ?thesis
    by (simp add: calls_run_parallel ws_A_def completion_order_def upt_rec world_empty_def)
qed

text \<open>
  C9. With \<open>IS_DEV_TEST\<close> set, \<open>syncBlocksRange\<close> returns \<open>{endCursor: to, hasBlocks: true}\<close>
  and changes nothing but the console: no request to the node, no insert, no enqueue.
  A round then runs its windows strictly one after the other, in plan order and
  whatever the \<open>delay\<close>: its result and its effects are those of calling
  \<open>syncBlocksRange\<close> on each window in turn, and each call settles before the next one is
  made. (Without the flag every call is made before any settles: \<open>calls_run_parallel\<close>.)
\<close>

theorem dev_test_mode:
  assumes dev: "IS_DEV_TEST env"
  shows "syncBlocksRange env c w world =
           (Inr \<lparr>endCursor = Some (to_w w), hasBlocks = True\<rparr>,
            world\<lparr>console := console world @ [LogSyncing (from_w w) (to_w w)],
                  calls := calls world @ [Called w, Settled w]\<rparr>) \<and>
         (createBatchEvents ctx = Inr ws \<and> \<not> (0 < cursor_of ctx \<and> ws = []) \<longrightarrow>
            syncBlocks env c delay ctx world =
              (Inr (last_result (map (\<lambda>w. Some \<lparr>endCursor = Some (to_w w), hasBlocks = True\<rparr>) ws)),
               foldl (\<lambda>wo w. snd (syncBlocksRange env c w wo)) world ws) \<and>
            calls (snd (syncBlocks env c delay ctx world)) =
              calls world @ concat (map (\<lambda>w. [Called w, Settled w]) ws))"
proof (intro conjI impI)
  show "syncBlocksRange env c w world =
           (Inr \<lparr>endCursor = Some (to_w w), hasBlocks = True\<rparr>,
            world\<lparr>console := console world @ [LogSyncing (from_w w) (to_w w)],
                  calls := calls world @ [Called w, Settled w]\<rparr>)"
    using syncBlocksRange_dev[OF dev] .
next
  assume a: "createBatchEvents ctx = Inr ws \<and> \<not> (0 < cursor_of ctx \<and> ws = [])"
  show round: "syncBlocks env c delay ctx world =
      (Inr (last_result (map (\<lambda>w. Some \<lparr>endCursor = Some (to_w w), hasBlocks = True\<rparr>) ws)),
       foldl (\<lambda>wo w. snd (syncBlocksRange env c w wo)) world ws)"
    using a dev by (auto simp: syncBlocks_def run_sequential_dev[OF dev] comp_def)
  show "calls (snd (syncBlocks env c delay ctx world)) =
      calls world @ concat (map (\<lambda>w. [Called w, Settled w]) ws)"
    unfolding round using calls_sequential_dev[OF dev] by simp
qed

theorem dev_test_mode_witness:
  "IS_DEV_TEST env_dev \<and>
   syncBlocksRange env_dev collab_ok \<lparr>from_w = 20, to_w = 22\<rparr> world_empty =
     (Inr \<lparr>endCursor = Some 22, hasBlocks = True\<rparr>,
      \<lparr>db = [], queue = [], requests = [], console = [LogSyncing 20 22],
       calls = [Called \<lparr>from_w = 20, to_w = 22\<rparr>, Settled \<lparr>from_w = 20, to_w = 22\<rparr>]\<rparr>) \<and>
   createBatchEvents ctx_A = Inr ws_A \<and>
   fst (syncBlocks env_dev collab_ok (\<lambda>i. 3 - i) ctx_A world_empty) =
     Inr (Some \<lparr>endCursor = Some 22, hasBlocks = True\<rparr>) \<and>
   calls (snd (syncBlocks env_dev collab_ok (\<lambda>i. 3 - i) ctx_A world_empty)) =
     [Called \<lparr>from_w = 0, to_w = 10\<rparr>, Settled \<lparr>from_w = 0, to_w = 10\<rparr>,
      Called \<lparr>from_w = 10, to_w = 20\<rparr>, Settled \<lparr>from_w = 10, to_w = 20\<rparr>,
      Called \<lparr>from_w = 20, to_w = 22\<rparr>, Settled \<lparr>from_w = 20, to_w = 22\<rparr>]"
proof -
  have dev: "IS_DEV_TEST env_dev" by (simp add: env_dev_def)
  have pre: "createBatchEvents ctx_A = Inr ws_A \<and> \<not> (0 < cursor_of ctx_A \<and> ws_A = [])"
    using createBatchEvents_ctx_A by (simp add: ws_A_def)
  have one: "syncBlocksRange env_dev collab_ok \<lparr>from_w = 20, to_w = 22\<rparr> world_empty =
      (Inr \<lparr>endCursor = Some (to_w \<lparr>from_w = 20, to_w = 22\<rparr>), hasBlocks = True\<rparr>,
       world_empty\<lparr>console := console world_empty @
            [LogSyncing (from_w \<lparr>from_w = 20, to_w = 22\<rparr>) (to_w \<lparr>from_w = 20, to_w = 22\<rparr>)],
          calls := calls world_empty @
            [Called \<lparr>from_w = 20, to_w = 22\<rparr>, Settled \<lparr>from_w = 20, to_w = 22\<rparr>]\<rparr>)"
    using dev_test_mode[OF dev, of collab_ok "\<lparr>from_w = 20, to_w = 22\<rparr>" world_empty] by blast
  have round: "syncBlocks env_dev collab_ok (\<lambda>i. 3 - i) ctx_A world_empty =
      (Inr (last_result (map (\<lambda>w. Some \<lparr>endCursor = Some (to_w w), hasBlocks = True\<rparr>) ws_A)),
       foldl (\<lambda>wo w. snd (syncBlocksRange env_dev collab_ok w wo)) world_empty ws_A)"
    and sched: "calls (snd (syncBlocks env_dev collab_ok (\<lambda>i. 3 - i) ctx_A world_empty)) =
      calls world_empty @ concat (map (\<lambda>w. [Called w, Settled w]) ws_A)"
    using dev_test_mode[OF dev, of collab_ok _ world_empty ctx_A ws_A "\<lambda>i. 3 - i"] pre
    by blast+
  have one': "syncBlocksRange env_dev collab_ok \<lparr>from_w = 20, to_w = 22\<rparr> world_empty =
     (Inr \<lparr>endCursor = Some 22, hasBlocks = True\<rparr>,
      \<lparr>db = [], queue = [], requests = [], console = [LogSyncing 20 22],
       calls = [Called \<lparr>from_w = 20, to_w = 22\<rparr>, Settled \<lparr>from_w = 20, to_w = 22\<rparr>]\<rparr>)"
    unfolding one by (simp add: world_empty_def)
  have res: "fst (syncBlocks env_dev collab_ok (\<lambda>i. 3 - i) ctx_A world_empty) =
     Inr (Some \<lparr>endCursor = Some 22, hasBlocks = True\<rparr>)"
    unfolding round by (simp add: ws_A_def last_result_def)
  have sched': "calls (snd (syncBlocks env_dev collab_ok (\<lambda>i. 3 - i) ctx_A world_empty)) =
     [Called \<lparr>from_w = 0, to_w = 10\<rparr>, Settled \<lparr>from_w = 0, to_w = 10\<rparr>,
      Called \<lparr>from_w = 10, to_w = 20\<rparr>, Settled \<lparr>from_w = 10, to_w = 20\<rparr>,
      Called \<lparr>from_w = 20, to_w = 22\<rparr>, Settled \<lparr>from_w = 20, to_w = 22\<rparr>]"
    unfolding sched by (simp add: ws_A_def world_empty_def)
  show ?thesis
    using dev createBatchEvents_ctx_A one' res sched' by blast
qed

section \<open>One window: fetch, insert and enqueue in a transaction\<close>

text \<open>
  C4, as the code has it. Unless \<open>IS_DEV_TEST\<close> is set, a call of \<open>syncBlocksRange\<close> that
  returns a result has inserted the fetched blocks and pushed exactly one work item,
  holding the non-null blocks, inside one transaction that committed. A call that
  fails, whether in the fetch, the insert, the push or the commit, leaves the block
  table and the queue as they were and gives the machine no result, so the context and
  its cursor stay as they were.
\<close>

theorem syncBlocksRange_transaction:
  assumes prod: "\<not> IS_DEV_TEST env"
    and call: "syncBlocksRange env c w world = (res, world')"
  shows "(\<forall>r. res = Inr r \<longrightarrow>
            (\<exists>f. blocksFromNode c (to_w w - from_w w) (from_w w) = Inr f \<and>
                 insertMany c (blocks f) (db world) = Inr (db world') \<and>
                 queue world' = queue world @
                   [\<lparr>topic = SYNC_TRANSACTIONS, payload_blocks = filter_Boolean (blocks f)\<rparr>] \<and>
                 r = \<lparr>endCursor = node_endCursor f, hasBlocks = (length (blocks f) > 0)\<rparr>)) \<and>
         (\<forall>e. res = Inl e \<longrightarrow>
            db world' = db world \<and> queue world' = queue world \<and>
            snap_context (transition s (settled done_syncBlocks (Inl e))) = snap_context s \<and>
            snap_context (transition s (settled done_syncMissingBlocks (Inl e))) = snap_context s)"
proof -
  define world1 where "world1 = syncBlocksRange_start env w world"
  have d1: "db world1 = db world" and q1: "queue world1 = queue world"
    by (simp_all add: world1_def syncBlocksRange_start_def Let_def)
  obtain world2 where body: "syncBlocksRange_body env c w world1 = (res, world2)"
    and w': "world' = world2\<lparr>calls := calls world2 @ [Settled w]\<rparr>"
    using call
    by (auto simp: syncBlocksRange_def syncBlocksRange_finish_def world1_def split: prod.splits)
  have d': "db world' = db world2" and q': "queue world' = queue world2"
    by (simp_all add: w')
  have ctx: "snap_context (transition s (error_actor e)) = snap_context s" for e
    by (simp add: transition_def)
  show ?thesis
  proof (cases "blocksFromNode c (to_w w - from_w w) (from_w w)")
    case (Inl e)
    then show ?thesis
      using body prod d1 q1 d' q' ctx by (auto simp: syncBlocksRange_body_def settled_def)
  next
    case (Inr f)
    then have tr: "transaction c (persist c f) world1 = (res, world2)"
      using body prod by (simp add: syncBlocksRange_body_def)
    show ?thesis
    proof (cases "insertMany c (blocks f) (db world1)")
      case (Inl e)
      then show ?thesis
        using tr d1 q1 d' q' ctx by (auto simp: transaction_def persist_def settled_def)
    next
      case ins: (Inr staged)
      let ?item = "\<lparr>topic = SYNC_TRANSACTIONS, payload_blocks = filter_Boolean (blocks f)\<rparr>"
      show ?thesis
      proof (cases "push_error c ?item")
        case (Some e)
        then show ?thesis
          using tr ins d1 q1 d' q' ctx
          by (auto simp: transaction_def persist_def queue_push_def Let_def settled_def)
      next
        case None
        show ?thesis
        proof (cases "commit_error c staged")
          case cn: None
          then show ?thesis
            using tr ins None Inr d1 q1 d' q'
            by (auto simp: transaction_def persist_def queue_push_def Let_def)
        next
          case (Some e)
          then show ?thesis
            using tr ins None d1 q1 d' q' ctx
            by (auto simp: transaction_def persist_def queue_push_def Let_def settled_def)
        qed
      qed
    qed
  qed
qed

text \<open>
  C4 as stated fails: with \<open>IS_DEV_TEST\<close> set, a window for which the node has two blocks
  is neither fetched nor inserted nor enqueued, and the call still returns a result.
\<close>

theorem syncBlocksRange_dev_no_insert:
  "IS_DEV_TEST env_dev \<and>
   blocksFromNode collab_ok 2 20 =
     Inr \<lparr>blocks = [Some \<lparr>header_height = 21\<rparr>, Some \<lparr>header_height = 22\<rparr>],
          node_endCursor = Some 22\<rparr> \<and>
   syncBlocksRange env_dev collab_ok \<lparr>from_w = 20, to_w = 22\<rparr> world_empty =
     (Inr \<lparr>endCursor = Some 22, hasBlocks = True\<rparr>,
      \<lparr>db = [], queue = [], requests = [], console = [LogSyncing 20 22],
       calls = [Called \<lparr>from_w = 20, to_w = 22\<rparr>, Settled \<lparr>from_w = 20, to_w = 22\<rparr>]\<rparr>)"
  by (simp add: syncBlocksRange_def syncBlocksRange_start_def syncBlocksRange_finish_def
      syncBlocksRange_body_def Let_def env_dev_def collab_ok_def node_page_def world_empty_def)

theorem syncBlocksRange_transaction_witness:
  "\<not> IS_DEV_TEST env_prod \<and>
   syncBlocksRange env_prod collab_ok \<lparr>from_w = 20, to_w = 22\<rparr> world_empty =
     (Inr \<lparr>endCursor = Some 22, hasBlocks = True\<rparr>,
      \<lparr>db = [Some \<lparr>header_height = 21\<rparr>, Some \<lparr>header_height = 22\<rparr>],
       queue = [\<lparr>topic = SYNC_TRANSACTIONS,
                 payload_blocks = [\<lparr>header_height = 21\<rparr>, \<lparr>header_height = 22\<rparr>]\<rparr>],
       requests = [(2, 20)], console = [LogSyncing 20 22],
       calls = [Called \<lparr>from_w = 20, to_w = 22\<rparr>, Settled \<lparr>from_w = 20, to_w = 22\<rparr>]\<rparr>) \<and>
   insertMany collab_ok [Some \<lparr>header_height = 21\<rparr>, Some \<lparr>header_height = 22\<rparr>] (db world_empty) =
     Inr [Some \<lparr>header_height = 21\<rparr>, Some \<lparr>header_height = 22\<rparr>] \<and>
   fst (syncBlocksRange env_prod collab_insert_fails \<lparr>from_w = 20, to_w = 22\<rparr> world_empty) =
     Inl (Failure ''insert failed'') \<and>
   db (snd (syncBlocksRange env_prod collab_insert_fails \<lparr>from_w = 20, to_w = 22\<rparr> world_empty)) =
     db world_empty \<and>
   queue (snd (syncBlocksRange env_prod collab_insert_fails \<lparr>from_w = 20, to_w = 22\<rparr> world_empty)) =
     queue world_empty \<and>
   fst (syncBlocksRange env_prod collab_commit_fails \<lparr>from_w = 20, to_w = 22\<rparr> world_empty) =
     Inl (Failure ''commit failed'') \<and>
   db (snd (syncBlocksRange env_prod collab_commit_fails \<lparr>from_w = 20, to_w = 22\<rparr> world_empty)) =
     db world_empty \<and>
   queue (snd (syncBlocksRange env_prod collab_commit_fails \<lparr>from_w = 20, to_w = 22\<rparr> world_empty)) =
     queue world_empty"
proof -
  let ?w = "\<lparr>from_w = 20, to_w = 22\<rparr>"
  let ?world' = "\<lparr>db = [Some \<lparr>header_height = 21\<rparr>, Some \<lparr>header_height = 22\<rparr>],
       queue = [\<lparr>topic = SYNC_TRANSACTIONS,
                 payload_blocks = [\<lparr>header_height = 21\<rparr>, \<lparr>header_height = 22\<rparr>]\<rparr>],
       requests = [(2, 20)], console = [LogSyncing 20 22],
       calls = [Called \<lparr>from_w = 20, to_w = 22\<rparr>, Settled \<lparr>from_w = 20, to_w = 22\<rparr>]\<rparr>"
  have prod: "\<not> IS_DEV_TEST env_prod" by (simp add: env_prod_def)
  have call: "syncBlocksRange env_prod collab_ok ?w world_empty =
      (Inr \<lparr>endCursor = Some 22, hasBlocks = True\<rparr>, ?world')"
    by (simp add: syncBlocksRange_def syncBlocksRange_start_def syncBlocksRange_finish_def
      syncBlocksRange_body_def transaction_def persist_def queue_push_def Let_def env_prod_def
      collab_ok_def node_page_def world_empty_def filter_Boolean_def List.map_filter_simps)
  have f: "blocksFromNode collab_ok (to_w ?w - from_w ?w) (from_w ?w) =
      Inr \<lparr>blocks = [Some \<lparr>header_height = 21\<rparr>, Some \<lparr>header_height = 22\<rparr>],
           node_endCursor = Some 22\<rparr>"
    by (simp add: collab_ok_def node_page_def)
  obtain f' where "blocksFromNode collab_ok (to_w ?w - from_w ?w) (from_w ?w) = Inr f'"
    and "insertMany collab_ok (blocks f') (db world_empty) = Inr (db ?world')"
    using syncBlocksRange_transaction[OF prod call] by blast
  then have ins: "insertMany collab_ok [Some \<lparr>header_height = 21\<rparr>, Some \<lparr>header_height = 22\<rparr>]
      (db world_empty) = Inr [Some \<lparr>header_height = 21\<rparr>, Some \<lparr>header_height = 22\<rparr>]"
    using f by auto
  let ?bad = "syncBlocksRange env_prod collab_insert_fails ?w world_empty"
  have failed: "fst ?bad = Inl (Failure ''insert failed'')"
    by (simp add: syncBlocksRange_def syncBlocksRange_start_def syncBlocksRange_finish_def
      syncBlocksRange_body_def transaction_def persist_def Let_def env_prod_def
      collab_insert_fails_def collab_ok_def node_page_def world_empty_def)
  then have call2: "?bad = (Inl (Failure ''insert failed''), snd ?bad)"
    by (metis prod.collapse)
  have kept: "db (snd ?bad) = db world_empty \<and> queue (snd ?bad) = queue world_empty"
    using syncBlocksRange_transaction[OF prod call2] by blast
  let ?lost = "syncBlocksRange env_prod collab_commit_fails ?w world_empty"
  have failed3: "fst ?lost = Inl (Failure ''commit failed'')"
    by (simp add: syncBlocksRange_def syncBlocksRange_start_def syncBlocksRange_finish_def
      syncBlocksRange_body_def transaction_def persist_def queue_push_def Let_def env_prod_def
      collab_commit_fails_def collab_ok_def node_page_def world_empty_def)
  then have call3: "?lost = (Inl (Failure ''commit failed''), snd ?lost)"
    by (metis prod.collapse)
  have kept3: "db (snd ?lost) = db world_empty \<and> queue (snd ?lost) = queue world_empty"
    using syncBlocksRange_transaction[OF prod call3] by blast
  show ?thesis using prod call ins failed kept failed3 kept3 by blast
qed

section \<open>The cursor across a step of the machine\<close>

lemma planned_last_window:
  assumes off: "0 < offset ctx" and plan: "createBatchEvents ctx = Inr ws" and ne: "ws \<noteq> []"
  shows "cursor_of ctx \<le> from_w (last ws) \<and> cursor_of ctx < to_w (last ws)"
proof -
  let ?n = "length ws"
  have low: "(int ?n - 1) * offset ctx <
      min (cursor_of ctx + limit ctx) (getLastBlockHeight ctx) - cursor_of ctx"
    using createBatchEvents_length(2)[OF off plan ne] .
  have nonneg: "0 \<le> (int ?n - 1) * offset ctx"
    using ne off by (simp add: Suc_leI)
  have "last ws = ws ! (?n - 1)" using ne by (simp add: last_conv_nth)
  also have "\<dots> = batch_window ctx (?n - 1)"
    using planned_nth[OF plan, of "?n - 1"] ne by simp
  finally have l: "last ws = batch_window ctx (?n - 1)" .
  have i: "int (?n - 1) = int ?n - 1" using ne by (simp add: of_nat_diff Suc_leI)
  have f: "from_w (last ws) = cursor_of ctx + (int ?n - 1) * offset ctx"
    unfolding l from_w_batch_window i ..
  have s: "int (Suc (?n - 1)) = int ?n" using ne by simp
  have t: "to_w (last ws) =
      min (cursor_of ctx + int ?n * offset ctx) (getLastBlockHeight ctx)"
    unfolding l to_w_batch_window s ..
  have "(int ?n - 1) * offset ctx < int ?n * offset ctx" using off by (simp add: algebra_simps)
  then have "cursor_of ctx < to_w (last ws)" using low nonneg unfolding t by simp
  then show ?thesis using f nonneg by simp
qed

lemma range_outcome_endCursor:
  assumes node: "\<forall>n start f. blocksFromNode c n start = Inr f \<longrightarrow>
                   (case node_endCursor f of None \<Rightarrow> True | Some e \<Rightarrow> start \<le> e)"
    and out: "range_outcome env c w = Some r" and e: "endCursor r = Some e"
  shows "if IS_DEV_TEST env then e = to_w w else from_w w \<le> e"
proof (cases "IS_DEV_TEST env")
  case True
  then show ?thesis using out e by (auto simp: range_outcome_def)
next
  case False
  then obtain f where f: "blocksFromNode c (to_w w - from_w w) (from_w w) = Inr f"
    and r: "r = \<lparr>endCursor = node_endCursor f, hasBlocks = (length (blocks f) > 0)\<rparr>"
    using out by (auto simp: range_outcome_def split: sum.splits)
  have "case node_endCursor f of None \<Rightarrow> True | Some e \<Rightarrow> from_w w \<le> e"
    using node f by blast
  then show ?thesis using False r e by simp
qed

lemma syncBlocks_no_plan_no_result:
  assumes "createBatchEvents ctx = Inr []" and "\<not> 0 < cursor_of ctx"
  shows "syncBlocks env c delay ctx world = (Inr None, world)"
  using assms by (simp add: syncBlocks_def run_parallel_Nil last_result_def)

lemma syncBlocks_endCursor:
  assumes off: "0 < offset ctx"
    and node: "\<forall>n start f. blocksFromNode c n start = Inr f \<longrightarrow>
                   (case node_endCursor f of None \<Rightarrow> True | Some e \<Rightarrow> start \<le> e)"
    and round: "syncBlocks env c delay ctx world = (Inr (Some r), world')"
    and e: "endCursor r = Some e"
  shows "cursor_of ctx \<le> e"
proof -
  obtain ws where plan: "createBatchEvents ctx = Inr ws"
    using round by (auto simp: syncBlocks_def split: sum.splits)
  show ?thesis
  proof (cases "ws = []")
    case True
    show ?thesis
    proof (cases "0 < cursor_of ctx")
      case c: True
      then show ?thesis using round plan True e by (auto simp: syncBlocks_def)
    next
      case False
      then show ?thesis
        using syncBlocks_no_plan_no_result[of ctx env c delay world] plan True round by simp
    qed
  next
    case False
    have o: "range_outcome env c (last ws) = Some r"
      using syncBlocks_outcome[OF plan False round] by simp
    have b: "cursor_of ctx \<le> from_w (last ws) \<and> cursor_of ctx < to_w (last ws)"
      using planned_last_window[OF off plan False] .
    show ?thesis
      using range_outcome_endCursor[OF node o e] b by (auto split: if_splits)
  qed
qed

lemma cursor_of_assign_result:
  "cursor_of (assign_result ctx output) =
     (case output of
        None \<Rightarrow> cursor_of ctx
      | Some r \<Rightarrow> (case endCursor r of None \<Rightarrow> cursor_of ctx | Some e \<Rightarrow> e))"
  by (simp add: assign_result_def cursor_of_def split: option.splits)

lemma cursor_of_lastBlock_update [simp]: "cursor_of (ctx\<lparr>lastBlock := b\<rparr>) = cursor_of ctx"
  by (simp add: cursor_of_def)

text \<open>
  C7, as the code has it. The assignments of \<open>syncingBlocks\<close> and \<open>syncingMissingBlocks\<close>
  take the \<open>endCursor\<close> of the result as the new cursor and compare it with nothing. One
  step of the machine therefore never lowers the cursor provided that the batch size is
  positive, that the node never reports an \<open>endCursor\<close> below the start height it was
  asked for, and that, under \<open>IS_DEV_TEST\<close> (where a window's \<open>to\<close> comes back as
  \<open>endCursor\<close>), the head the node reports is not below the cursor.
\<close>

theorem cursor_non_decreasing:
  assumes off: "0 < offset (snap_context s)"
    and node: "\<forall>n start f. blocksFromNode c n start = Inr f \<longrightarrow>
                   (case node_endCursor f of None \<Rightarrow> True | Some e \<Rightarrow> start \<le> e)"
    and dev: "IS_DEV_TEST env \<longrightarrow>
                (\<forall>b. latestBlockFromNode c = Inr b \<longrightarrow> cursor_of (snap_context s) \<le> header_height b)"
  shows "cursor_of (snap_context s)
           \<le> cursor_of (snap_context (fst (drive env c delay (s, world))))"
proof (cases "snap_status s = active")
  case False
  then show ?thesis by (simp add: drive_def)
next
  case act: True
  let ?ctx = "snap_context s"
  have err: "snap_context (transition s (error_actor e)) = ?ctx" for e
    by (simp add: transition_def)
  show ?thesis
  proof (cases "snap_value s")
    case idle
    then show ?thesis using act by (simp add: drive_def)
  next
    case gettingLastBlock
    then show ?thesis
      using act by (simp add: drive_def settled_def transition_def split: sum.splits)
  next
    case syncingBlocks
    obtain res world' where round: "syncBlocks env c delay ?ctx world = (res, world')"
      by (cases "syncBlocks env c delay ?ctx world")
    show ?thesis
    proof (cases res)
      case (Inl e)
      then show ?thesis
        using act syncingBlocks round by (simp add: drive_def settled_def err)
    next
      case (Inr out)
      have step: "snap_context (fst (drive env c delay (s, world))) = assign_result ?ctx out"
        using act syncingBlocks round Inr
        by (simp add: drive_def settled_def transition_def Let_def)
      show ?thesis
      proof (cases out)
        case None
        then show ?thesis by (simp add: step cursor_of_assign_result)
      next
        case (Some r)
        show ?thesis
        proof (cases "endCursor r")
          case None
          then show ?thesis using Some by (simp add: step cursor_of_assign_result)
        next
          case e: (Some e)
          have "cursor_of ?ctx \<le> e"
            using syncBlocks_endCursor[OF off node _ e] round Inr Some by simp
          then show ?thesis using Some e by (simp add: step cursor_of_assign_result)
        qed
      qed
    qed
  next
    case checking_st
    then show ?thesis using act by (simp add: drive_def)
  next
    case waiting
    then show ?thesis using act by (simp add: drive_def transition_def)
  next
    case syncingMissingBlocks
    obtain res world' where call: "syncMissingBlocks env c ?ctx world = (res, world')"
      by (cases "syncMissingBlocks env c ?ctx world")
    show ?thesis
    proof (cases res)
      case (Inl e)
      then show ?thesis
        using act syncingMissingBlocks call by (simp add: drive_def settled_def err)
    next
      case (Inr r)
      have step: "snap_context (fst (drive env c delay (s, world))) = assign_result ?ctx (Some r)"
        using act syncingMissingBlocks call Inr
        by (simp add: drive_def settled_def transition_def)
      obtain b where b: "latestBlockFromNode c = Inr b"
        and rng: "syncBlocksRange env c \<lparr>from_w = cursor_of ?ctx, to_w = header_height b\<rparr> world
                    = (Inr r, world')"
        using call Inr
        by (auto simp: syncMissingBlocks_def getLatestBlock_def getLastBlockHeight_def Let_def
            split: sum.splits)
      have o: "range_outcome env c \<lparr>from_w = cursor_of ?ctx, to_w = header_height b\<rparr> = Some r"
        using syncBlocksRange_outcome[OF rng] .
      show ?thesis
      proof (cases "endCursor r")
        case None
        then show ?thesis by (simp add: step cursor_of_assign_result)
      next
        case (Some e)
        have "cursor_of ?ctx \<le> e"
          using range_outcome_endCursor[OF node o Some] dev b by (auto split: if_splits)
        then show ?thesis using Some by (simp add: step cursor_of_assign_result)
      qed
    qed
  next
    case resettingLastBlock
    then show ?thesis
      using act by (simp add: drive_def settled_def transition_def split: sum.splits)
  qed
qed


lemma drive_syncingBlocks:
  assumes "snap_status s = active" and "snap_value s = syncingBlocks"
  shows "fst (drive env c delay (s, world)) =
     transition s (settled done_syncBlocks (fst (syncBlocks env c delay (snap_context s) world)))"
  using assms by (simp add: drive_def split: prod.splits)

theorem cursor_non_decreasing_witness:
  "0 < offset ctx_A \<and> cursor_of ctx_A = 0 \<and>
   cursor_of (snap_context \<lparr>snap_value = syncingBlocks, snap_context = ctx_A, snap_status = active\<rparr>)
     \<le> cursor_of (snap_context (fst (drive env_prod collab_ok (\<lambda>i. 3 - i)
          (\<lparr>snap_value = syncingBlocks, snap_context = ctx_A, snap_status = active\<rparr>, world_empty)))) \<and>
   cursor_of (snap_context (fst (drive env_prod collab_ok (\<lambda>i. 3 - i)
          (\<lparr>snap_value = syncingBlocks, snap_context = ctx_A, snap_status = active\<rparr>, world_empty))))
     = 22 \<and>
   IS_DEV_TEST env_dev \<and> latestBlockFromNode collab_ok = Inr \<lparr>header_height = 22\<rparr> \<and>
   cursor_of (snap_context \<lparr>snap_value = syncingMissingBlocks, snap_context = ctx_A, snap_status = active\<rparr>)
     \<le> cursor_of (snap_context (fst (drive env_dev collab_ok (\<lambda>i. 0)
          (\<lparr>snap_value = syncingMissingBlocks, snap_context = ctx_A, snap_status = active\<rparr>,
           world_empty))))"
proof -
  let ?s = "\<lparr>snap_value = syncingBlocks, snap_context = ctx_A, snap_status = active\<rparr>"
  let ?m = "\<lparr>snap_value = syncingMissingBlocks, snap_context = ctx_A, snap_status = active\<rparr>"
  have off: "0 < offset (snap_context ?s)" by (simp add: ctx_A_def)
  have off': "0 < offset (snap_context ?m)" by (simp add: ctx_A_def)
  have node: "\<forall>n start f. blocksFromNode collab_ok n start = Inr f \<longrightarrow>
                   (case node_endCursor f of None \<Rightarrow> True | Some e \<Rightarrow> start \<le> e)"
    by (auto simp: collab_ok_def node_page_def)
  have dev: "IS_DEV_TEST env_prod \<longrightarrow>
      (\<forall>b. latestBlockFromNode collab_ok = Inr b \<longrightarrow> cursor_of (snap_context ?s) \<le> header_height b)"
    by (simp add: env_prod_def)
  have isdev: "IS_DEV_TEST env_dev" by (simp add: env_dev_def)
  have latest: "latestBlockFromNode collab_ok = Inr \<lparr>header_height = 22\<rparr>"
    by (simp add: collab_ok_def)
  have dev': "IS_DEV_TEST env_dev \<longrightarrow>
      (\<forall>b. latestBlockFromNode collab_ok = Inr b \<longrightarrow> cursor_of (snap_context ?m) \<le> header_height b)"
    by (auto simp: latest cursor_of_def ctx_A_def)
  have mono: "cursor_of (snap_context ?s)
      \<le> cursor_of (snap_context (fst (drive env_prod collab_ok (\<lambda>i. 3 - i) (?s, world_empty))))"
    using cursor_non_decreasing[OF off node dev] .
  have mono': "cursor_of (snap_context ?m)
      \<le> cursor_of (snap_context (fst (drive env_dev collab_ok (\<lambda>i. 0) (?m, world_empty))))"
    using cursor_non_decreasing[OF off' node dev'] .
  have "fst (drive env_prod collab_ok (\<lambda>i. 3 - i) (?s, world_empty)) =
      transition ?s (done_syncBlocks (Some \<lparr>endCursor = Some 22, hasBlocks = True\<rparr>))"
    by (simp add: drive_syncingBlocks syncBlocks_ctx_A settled_def)
  then have val: "cursor_of (snap_context (fst (drive env_prod collab_ok (\<lambda>i. 3 - i)
      (?s, world_empty)))) = 22"
    by (simp add: transition_def assign_result_def cursor_of_def Let_def)
  have c0: "cursor_of ctx_A = 0" by (simp add: cursor_of_def ctx_A_def)
  show ?thesis using off mono mono' val c0 isdev latest by simp
qed

text \<open>
  A job that starts at cursor 50 in watch mode, with \<open>IS_DEV_TEST\<close> set, on a chain of
  height 22: after three steps the machine is in \<open>syncingMissingBlocks\<close>.
\<close>

lemma dev_ahead_3:
  "(drive env_dev collab_ok (\<lambda>i. 0) ^^ 3)
      (transition (createActor env_dev input_ahead) START_SYNC, world_empty) =
   (\<lparr>snap_value = syncingMissingBlocks, snap_context = ctx_ahead, snap_status = active\<rparr>,
    world_empty\<lparr>console := [LogAllSynced]\<rparr>)"
proof -
  let ?d = "drive env_dev collab_ok (\<lambda>i. 0)"
  let ?c1 = "\<lparr>cursor = Some 50, offset = 10, limit = 25,
              lastBlock = Some \<lparr>header_height = 22\<rparr>, lastResult = None, watch = Some True\<rparr>"
  have s0: "transition (createActor env_dev input_ahead) START_SYNC =
      \<lparr>snap_value = gettingLastBlock,
       snap_context = \<lparr>cursor = Some 50, offset = 10, limit = 25, lastBlock = None,
                       lastResult = None, watch = Some True\<rparr>,
       snap_status = active\<rparr>"
    by (simp add: transition_def createActor_def initial_context_def input_ahead_def env_dev_def)
  have s1: "?d (transition (createActor env_dev input_ahead) START_SYNC, world_empty) =
      (\<lparr>snap_value = syncingBlocks, snap_context = ?c1, snap_status = active\<rparr>, world_empty)"
    unfolding s0
    by (simp add: drive_def getLatestBlock_def collab_ok_def settled_def transition_def)
  have plan: "createBatchEvents ?c1 = Inr []"
    by (simp add: createBatchEvents_def numberOfBatches_def getIdsRange_def Let_def ceil_div_def
        array_from_length_def getLastBlockHeight_def cursor_of_def)
  have round: "syncBlocks env_dev collab_ok (\<lambda>i. 0) ?c1 world_empty =
      (Inr (Some \<lparr>endCursor = Some 50, hasBlocks = False\<rparr>),
       world_empty\<lparr>console := [LogAllSynced]\<rparr>)"
    by (simp add: syncBlocks_def plan cursor_of_def world_empty_def)
  have s2: "?d (\<lparr>snap_value = syncingBlocks, snap_context = ?c1, snap_status = active\<rparr>, world_empty) =
      (\<lparr>snap_value = waiting, snap_context = ctx_ahead, snap_status = active\<rparr>,
       world_empty\<lparr>console := [LogAllSynced]\<rparr>)"
    by (simp add: drive_def round settled_def transition_def assign_result_def
        checking_always_def hasMoreEvents_def needToWatch_def ctx_ahead_def)
  have s3: "?d (\<lparr>snap_value = waiting, snap_context = ctx_ahead, snap_status = active\<rparr>,
       world_empty\<lparr>console := [LogAllSynced]\<rparr>) =
      (\<lparr>snap_value = syncingMissingBlocks, snap_context = ctx_ahead, snap_status = active\<rparr>,
       world_empty\<lparr>console := [LogAllSynced]\<rparr>)"
    by (simp add: drive_def transition_def)
  show ?thesis
    by (simp only: numeral_3_eq_3 funpow.simps o_apply id_apply s1 s2 s3)
qed

text \<open>
  C7 as stated fails: in that run the assignment of \<open>syncingMissingBlocks\<close> sets the
  cursor from 50 to 22.
\<close>

theorem cursor_decreases:
  "cursor (snap_context (fst ((drive env_dev collab_ok (\<lambda>i. 0) ^^ 3)
      (transition (createActor env_dev input_ahead) START_SYNC, world_empty)))) = Some 50 \<and>
   cursor (snap_context (fst ((drive env_dev collab_ok (\<lambda>i. 0) ^^ 4)
      (transition (createActor env_dev input_ahead) START_SYNC, world_empty)))) = Some 22"
proof -
  let ?d = "drive env_dev collab_ok (\<lambda>i. 0)"
  let ?x = "(transition (createActor env_dev input_ahead) START_SYNC, world_empty)"
  have four: "(?d ^^ 4) ?x = ?d ((?d ^^ 3) ?x)"
    by (simp add: eval_nat_numeral)
  have a: "cursor (snap_context (fst ((?d ^^ 3) ?x))) = Some 50"
    by (simp add: dev_ahead_3 ctx_ahead_def)
  have b: "cursor (snap_context (fst ((?d ^^ 4) ?x))) = Some 22"
    unfolding four dev_ahead_3
    by (simp add: drive_def syncMissingBlocks_def getLatestBlock_def collab_ok_def
        getLastBlockHeight_def Let_def syncBlocksRange_def syncBlocksRange_start_def
        syncBlocksRange_finish_def syncBlocksRange_body_def env_dev_def settled_def transition_def assign_result_def
        ctx_ahead_def cursor_of_def)
  show ?thesis using a b by simp
qed

section \<open>When the machine waits and when it is idle\<close>

lemma needToWatch_assign_result [simp]:
  "needToWatch (assign_result ctx out) = needToWatch ctx"
  by (simp add: needToWatch_def assign_result_def)

lemma needToWatch_lastBlock_update [simp]:
  "needToWatch (ctx\<lparr>lastBlock := b\<rparr>) = needToWatch ctx"
  by (simp add: needToWatch_def)

lemma hasMoreEvents_assign_result [simp]:
  "hasMoreEvents (assign_result ctx out) = (\<not> no_more_blocks out)"
  by (simp add: hasMoreEvents_def assign_result_def no_more_blocks_def split: option.splits)

lemma run_invariant_step:
  assumes inv: "run_invariant evs s rounds"
  shows "run_invariant (evs @ [ev]) (transition s ev) (rounds @ takes_round s ev)"
proof (cases "snap_status s = active")
  case False
  then have "transition s ev = s" by (simp add: transition_def)
  moreover have "takes_round s ev = []" using False by (simp add: takes_round_def split: event.splits)
  ultimately show ?thesis using inv False by (auto simp: run_invariant_def)
next
  case act: True
  show ?thesis
  proof (cases ev)
    case START_SYNC
    then show ?thesis
      using inv act
      by (cases "snap_value s") (auto simp: run_invariant_def transition_def takes_round_def)
  next
    case (done_getLatestBlock b)
    then show ?thesis
      using inv act
      by (cases "snap_value s") (auto simp: run_invariant_def transition_def takes_round_def)
  next
    case (done_syncBlocks out)
    then show ?thesis
      using inv act
      by (cases "snap_value s")
        (auto simp: run_invariant_def transition_def takes_round_def Let_def checking_always_def)
  next
    case (done_syncMissingBlocks out)
    then show ?thesis
      using inv act
      by (cases "snap_value s") (auto simp: run_invariant_def transition_def takes_round_def)
  next
    case after_1000
    then show ?thesis
      using inv act
      by (cases "snap_value s") (auto simp: run_invariant_def transition_def takes_round_def)
  next
    case (error_actor e)
    then show ?thesis
      using inv act by (auto simp: run_invariant_def transition_def takes_round_def)
  qed
qed

lemma run_snoc: "run env input (evs @ [ev]) = track (run env input evs) ev"
  by (simp add: run_def)

lemma run_invariant_run:
  "run_invariant evs (fst (run env input evs)) (snd (run env input evs))"
proof (induction evs rule: rev_induct)
  case Nil
  then show ?case by (simp add: run_def run_invariant_def createActor_def)
next
  case (snoc ev evs)
  obtain s rounds where r: "run env input evs = (s, rounds)"
    by (cases "run env input evs")
  have "run_invariant (evs @ [ev]) (transition s ev) (rounds @ takes_round s ev)"
    using run_invariant_step[of evs s rounds ev] snoc.IH r by simp
  then show ?case by (simp add: run_snoc track_def r)
qed

lemma fully_synced_round:
  assumes c: "0 < cursor_of ctx" and plan: "createBatchEvents ctx = Inr []"
    and s: "snap_value s = syncingBlocks \<and> snap_status s = active \<and> snap_context s = ctx"
  shows "fst (drive env c' delay (s, world)) =
           s\<lparr>snap_value := (if needToWatch ctx then waiting else idle),
             snap_context := ctx\<lparr>lastResult := Some \<lparr>endCursor = Some (cursor_of ctx), hasBlocks = False\<rparr>,
                                 cursor := Some (cursor_of ctx)\<rparr>\<rparr>"
  using assms
  by (simp add: drive_def syncBlocks_def settled_def transition_def Let_def assign_result_def
      checking_always_def hasMoreEvents_def needToWatch_def)

text \<open>
  C5, as the code has it. In every run of the machine, under any events: when the
  machine is in \<open>waiting\<close>, the last round of \<open>syncingBlocks\<close> reported \<open>hasBlocks = false\<close>
  or returned no result, and watch mode is on; when it is \<open>idle\<close> after a round, that
  round reported \<open>hasBlocks = false\<close> or returned no result, and watch mode is off; and an
  active machine that was started is not \<open>idle\<close> before a round has come back. A round
  with \<open>cursor > 0\<close> and no planned window is not an error: it returns
  \<open>{endCursor: cursor, hasBlocks: false}\<close> and the machine goes on to \<open>waiting\<close> or \<open>idle\<close>.
\<close>

theorem waiting_only_when_drained:
  assumes r: "run env input evs = (s, rounds)"
  shows "(snap_value s = waiting \<longrightarrow>
            rounds \<noteq> [] \<and> no_more_blocks (last rounds) \<and> needToWatch (snap_context s)) \<and>
         (snap_value s = idle \<and> rounds \<noteq> [] \<longrightarrow>
            no_more_blocks (last rounds) \<and> \<not> needToWatch (snap_context s)) \<and>
         (snap_value s = idle \<and> snap_status s = active \<and> START_SYNC \<in> set evs \<longrightarrow> rounds \<noteq> []) \<and>
         (0 < cursor_of ctx \<and> createBatchEvents ctx = Inr [] \<and>
          snap_value s' = syncingBlocks \<and> snap_status s' = active \<and> snap_context s' = ctx \<longrightarrow>
            snap_status (fst (drive env c delay (s', world))) = active \<and>
            snap_value (fst (drive env c delay (s', world))) =
              (if needToWatch ctx then waiting else idle) \<and>
            lastResult (snap_context (fst (drive env c delay (s', world)))) =
              Some \<lparr>endCursor = Some (cursor_of ctx), hasBlocks = False\<rparr>)"
proof -
  have inv: "run_invariant evs s rounds" using run_invariant_run[of evs env input] r by simp
  have a: "snap_value s = waiting \<longrightarrow>
            rounds \<noteq> [] \<and> no_more_blocks (last rounds) \<and> needToWatch (snap_context s)"
    using inv by (simp add: run_invariant_def)
  have b: "snap_value s = idle \<and> rounds \<noteq> [] \<longrightarrow>
            no_more_blocks (last rounds) \<and> \<not> needToWatch (snap_context s)"
    using inv by (auto simp: run_invariant_def)
  have c: "snap_value s = idle \<and> snap_status s = active \<and> START_SYNC \<in> set evs \<longrightarrow> rounds \<noteq> []"
    using inv by (auto simp: run_invariant_def)
  have d: "0 < cursor_of ctx \<and> createBatchEvents ctx = Inr [] \<and>
          snap_value s' = syncingBlocks \<and> snap_status s' = active \<and> snap_context s' = ctx \<longrightarrow>
            snap_status (fst (drive env c delay (s', world))) = active \<and>
            snap_value (fst (drive env c delay (s', world))) =
              (if needToWatch ctx then waiting else idle) \<and>
            lastResult (snap_context (fst (drive env c delay (s', world)))) =
              Some \<lparr>endCursor = Some (cursor_of ctx), hasBlocks = False\<rparr>"
  proof
    assume h: "0 < cursor_of ctx \<and> createBatchEvents ctx = Inr [] \<and>
          snap_value s' = syncingBlocks \<and> snap_status s' = active \<and> snap_context s' = ctx"
    then have "fst (drive env c delay (s', world)) =
           s'\<lparr>snap_value := (if needToWatch ctx then waiting else idle),
             snap_context := ctx\<lparr>lastResult := Some \<lparr>endCursor = Some (cursor_of ctx), hasBlocks = False\<rparr>,
                                 cursor := Some (cursor_of ctx)\<rparr>\<rparr>"
      using fully_synced_round[of ctx s' env c delay world] by blast
    then show "snap_status (fst (drive env c delay (s', world))) = active \<and>
            snap_value (fst (drive env c delay (s', world))) =
              (if needToWatch ctx then waiting else idle) \<and>
            lastResult (snap_context (fst (drive env c delay (s', world)))) =
              Some \<lparr>endCursor = Some (cursor_of ctx), hasBlocks = False\<rparr>"
      using h by simp
  qed
  show ?thesis using a b c d by blast
qed


lemma run_B:
  "run env_prod input_B evs_B =
     (\<lparr>snap_value = waiting,
       snap_context = ctx_B\<lparr>lastResult := Some \<lparr>endCursor = Some 22, hasBlocks = False\<rparr>\<rparr>,
       snap_status = active\<rparr>,
      [Some \<lparr>endCursor = Some 22, hasBlocks = False\<rparr>])"
  by (simp add: run_def track_def transition_def takes_round_def createActor_def
      initial_context_def input_B_def evs_B_def env_prod_def ctx_B_def Let_def assign_result_def
      checking_always_def hasMoreEvents_def needToWatch_def)

lemma run_once:
  "run env_prod input_once evs_B =
     (\<lparr>snap_value = idle,
       snap_context = ctx_B\<lparr>lastResult := Some \<lparr>endCursor = Some 22, hasBlocks = False\<rparr>,
                           watch := None\<rparr>,
       snap_status = active\<rparr>,
      [Some \<lparr>endCursor = Some 22, hasBlocks = False\<rparr>])"
  by (simp add: run_def track_def transition_def takes_round_def createActor_def
      initial_context_def input_once_def evs_B_def env_prod_def ctx_B_def Let_def
      assign_result_def checking_always_def hasMoreEvents_def needToWatch_def)

lemma createBatchEvents_ctx_B: "createBatchEvents ctx_B = Inr []"
  by (simp add: createBatchEvents_def numberOfBatches_def getIdsRange_def Let_def ceil_div_def
      array_from_length_def getLastBlockHeight_def cursor_of_def ctx_B_def)

theorem waiting_only_when_drained_witness:
  "snap_value (fst (run env_prod input_B evs_B)) = waiting \<and>
   snd (run env_prod input_B evs_B) \<noteq> [] \<and>
   no_more_blocks (last (snd (run env_prod input_B evs_B))) \<and>
   needToWatch (snap_context (fst (run env_prod input_B evs_B))) \<and>
   snap_value (fst (run env_prod input_once evs_B)) = idle \<and>
   \<not> needToWatch (snap_context (fst (run env_prod input_once evs_B))) \<and>
   0 < cursor_of ctx_B \<and> createBatchEvents ctx_B = Inr [] \<and>
   snap_value (fst (drive env_prod collab_ok (\<lambda>i. 0)
      (\<lparr>snap_value = syncingBlocks, snap_context = ctx_B, snap_status = active\<rparr>, world_empty)))
     = waiting"
proof -
  let ?s = "\<lparr>snap_value = syncingBlocks, snap_context = ctx_B, snap_status = active\<rparr>"
  have c: "0 < cursor_of ctx_B" by (simp add: cursor_of_def ctx_B_def)
  have w: "needToWatch ctx_B" by (simp add: needToWatch_def ctx_B_def)
  have pre: "0 < cursor_of ctx_B \<and> createBatchEvents ctx_B = Inr [] \<and>
      snap_value ?s = syncingBlocks \<and> snap_status ?s = active \<and> snap_context ?s = ctx_B"
    using c createBatchEvents_ctx_B by simp
  have one: "snap_value (fst (run env_prod input_B evs_B)) = waiting"
    by (simp add: run_B)
  have two: "snap_value (fst (run env_prod input_once evs_B)) = idle"
    and three: "snd (run env_prod input_once evs_B) \<noteq> []"
    by (simp_all add: run_once)
  have rB: "run env_prod input_B evs_B =
      (fst (run env_prod input_B evs_B), snd (run env_prod input_B evs_B))"
    and rO: "run env_prod input_once evs_B =
      (fst (run env_prod input_once evs_B), snd (run env_prod input_once evs_B))"
    by simp_all
  have t1: "snd (run env_prod input_B evs_B) \<noteq> [] \<and>
      no_more_blocks (last (snd (run env_prod input_B evs_B))) \<and>
      needToWatch (snap_context (fst (run env_prod input_B evs_B)))"
    using waiting_only_when_drained[OF rB] one by blast
  have t2: "\<not> needToWatch (snap_context (fst (run env_prod input_once evs_B)))"
    using waiting_only_when_drained[OF rO] two three by blast
  have t3: "snap_value (fst (drive env_prod collab_ok (\<lambda>i. 0) (?s, world_empty))) =
      (if needToWatch ctx_B then waiting else idle)"
    using waiting_only_when_drained[where ctx = ctx_B and s' = ?s and c = collab_ok
        and delay = "\<lambda>i. 0" and world = world_empty, OF rB] pre
    by blast
  show ?thesis using one two t1 t2 t3 w c createBatchEvents_ctx_B by simp
qed

text \<open>
  C5 as stated fails: with cursor 0 and head 0 the round returns no result, so it does
  not report \<open>hasBlocks = false\<close>, and the machine enters \<open>waiting\<close>.
\<close>

theorem waiting_after_no_result:
  "run env_prod input_zero [START_SYNC, done_getLatestBlock \<lparr>header_height = 0\<rparr>] =
     (\<lparr>snap_value = syncingBlocks, snap_context = ctx_zero, snap_status = active\<rparr>, []) \<and>
   fst (syncBlocks env_prod collab_ok (\<lambda>i. 0) ctx_zero world_empty) = Inr None \<and>
   snap_value (fst (run env_prod input_zero
      [START_SYNC, done_getLatestBlock \<lparr>header_height = 0\<rparr>, done_syncBlocks None])) = waiting \<and>
   snd (run env_prod input_zero
      [START_SYNC, done_getLatestBlock \<lparr>header_height = 0\<rparr>, done_syncBlocks None]) = [None]"
proof -
  have a: "run env_prod input_zero [START_SYNC, done_getLatestBlock \<lparr>header_height = 0\<rparr>] =
     (\<lparr>snap_value = syncingBlocks, snap_context = ctx_zero, snap_status = active\<rparr>, [])"
    by (simp add: run_def track_def transition_def takes_round_def createActor_def
      initial_context_def input_zero_def env_prod_def ctx_zero_def)
  have b: "fst (syncBlocks env_prod collab_ok (\<lambda>i. 0) ctx_zero world_empty) = Inr None"
    by (simp add: syncBlocks_def createBatchEvents_def numberOfBatches_def getIdsRange_def Let_def
      ceil_div_def array_from_length_def getLastBlockHeight_def cursor_of_def ctx_zero_def
      run_parallel_Nil last_result_def env_prod_def)
  have c: "run env_prod input_zero
      [START_SYNC, done_getLatestBlock \<lparr>header_height = 0\<rparr>, done_syncBlocks None] =
     (\<lparr>snap_value = waiting, snap_context = ctx_zero, snap_status = active\<rparr>, [None])"
    by (simp add: run_def track_def transition_def takes_round_def createActor_def
      initial_context_def input_zero_def env_prod_def ctx_zero_def Let_def assign_result_def
      checking_always_def hasMoreEvents_def needToWatch_def)
  show ?thesis using a b by (simp add: c)
qed

section \<open>The exported handler and failures of the invoked promises\<close>

text \<open>
  C8. The handler returns normally for every input, with the actor in
  \<open>gettingLastBlock\<close> and its promise pending. When that promise is rejected afterwards,
  the actor ends in its error status; the \<open>catch\<close> of the handler is not reached, and no
  wrapped error goes to the caller.
\<close>

theorem handler_returns_before_failure:
  "syncBlocks_handler env input =
     (Inr (), Some (transition (createActor env input) START_SYNC),
      [LogState idle, LogState gettingLastBlock]) \<and>
   snap_value (transition (createActor env input) START_SYNC) = gettingLastBlock \<and>
   drive env (c\<lparr>latestBlockFromNode := Inl e\<rparr>) delay
       (transition (createActor env input) START_SYNC, world) =
     ((transition (createActor env input) START_SYNC)\<lparr>snap_status := errored e\<rparr>, world)"
  by (simp add: syncBlocks_handler_def start_actor_def Let_def createActor_def transition_def
      drive_def getLatestBlock_def settled_def)

section \<open>Applying \<open>upsertMany\<close> twice\<close>

lemma upsert_row_known:
  "find (\<lambda>r. item_id r = item_id v) table = Some x \<Longrightarrow> upsert_row v table = (x, table)"
  by (induction table) (auto split: if_splits)

lemma upsert_row_result:
  "upsert_row v table = (x, table') \<Longrightarrow>
   find (\<lambda>r. item_id r = item_id v) table' = Some x \<and> (\<exists>new. table' = table @ new)"
proof (induction table arbitrary: x table')
  case Nil
  then show ?case by auto
next
  case (Cons r table)
  show ?case
  proof (cases "item_id r = item_id v")
    case True
    then show ?thesis using Cons.prems by auto
  next
    case False
    obtain y t1 where rec: "upsert_row v table = (y, t1)" by (cases "upsert_row v table")
    then have "x = y" and "table' = r # t1" using Cons.prems False by auto
    then show ?thesis using Cons.IH[OF rec] False by auto
  qed
qed

lemma find_append_Some: "find P xs = Some x \<Longrightarrow> find P (xs @ ys) = Some x"
  by (induction xs) (auto split: if_splits)

lemma upsert_rows_grows:
  "upsert_rows vs table = (xs, table') \<Longrightarrow> \<exists>new. table' = table @ new"
proof (induction vs arbitrary: table xs table')
  case Nil
  then show ?case by simp
next
  case (Cons v vs)
  obtain x t1 where one: "upsert_row v table = (x, t1)" by (cases "upsert_row v table")
  obtain ys t2 where rest: "upsert_rows vs t1 = (ys, t2)" by (cases "upsert_rows vs t1")
  have "table' = t2" using Cons.prems one rest by simp
  moreover obtain n1 where "t1 = table @ n1" using upsert_row_result[OF one] by blast
  moreover obtain n2 where "t2 = t1 @ n2" using Cons.IH[OF rest] by blast
  ultimately show ?case by simp
qed

lemma upsert_rows_again:
  "upsert_rows vs table = (xs, table') \<Longrightarrow> upsert_rows vs table' = (xs, table')"
proof (induction vs arbitrary: table xs table')
  case Nil
  then show ?case by simp
next
  case (Cons v vs)
  obtain x t1 where one: "upsert_row v table = (x, t1)" by (cases "upsert_row v table")
  obtain ys t2 where rest: "upsert_rows vs t1 = (ys, t2)" by (cases "upsert_rows vs t1")
  have eq: "xs = x # ys" "table' = t2" using Cons.prems one rest by simp_all
  have "find (\<lambda>r. item_id r = item_id v) t1 = Some x" using upsert_row_result[OF one] by blast
  moreover obtain n2 where "t2 = t1 @ n2" using upsert_rows_grows[OF rest] by blast
  ultimately have "find (\<lambda>r. item_id r = item_id v) t2 = Some x"
    by (simp add: find_append_Some)
  then have again: "upsert_row v t2 = (x, t2)" by (rule upsert_row_known)
  show ?case using again Cons.IH[OF rest] by (simp add: eq)
qed

lemma upsertMany_again:
  assumes "upsertMany toDBItem create inserts table = Inr (entities, table')"
  shows "upsertMany toDBItem create inserts table' = Inr (entities, table')"
proof -
  define vs where "vs = proposed_rows toDBItem inserts"
  obtain items where ok: "vs \<noteq> []" "distinct (map item_id vs)"
    and rows: "upsert_rows vs table = (items, table')" and ent: "entities = map create items"
    using assms
    by (auto simp: upsertMany_def insert_onConflictDoUpdate_def Let_def vs_def[symmetric]
        split: if_splits prod.splits)
  have "upsert_rows vs table' = (items, table')" using upsert_rows_again[OF rows] .
  then show ?thesis
    using ok ent by (simp add: upsertMany_def insert_onConflictDoUpdate_def Let_def vs_def[symmetric])
qed

text \<open>
  \<open>upsertMany\<close> raises an error exactly on an empty list and on a list that proposes two
  rows with the same \<open>_id\<close>, whatever the table holds.
\<close>

lemma upsertMany_raises:
  "(\<exists>e. upsertMany toDBItem create inserts table = Inl e) \<longleftrightarrow>
     inserts = [] \<or> \<not> distinct (map item_id (proposed_rows toDBItem inserts))"
proof -
  have "length (proposed_rows toDBItem inserts) = length inserts"
    by (simp add: proposed_rows_def)
  then have "proposed_rows toDBItem inserts = [] \<longleftrightarrow> inserts = []"
    by (metis length_0_conv)
  then show ?thesis
    by (auto simp: upsertMany_def insert_onConflictDoUpdate_def Let_def split: prod.splits)
qed

text \<open>
  C10, as the code has it. For every non-empty list of inserts whose rows have pairwise
  distinct \<open>_id\<close>, \<open>upsertMany\<close> returns, and applying it a second time with the same inputs
  raises no error, returns the same entities and leaves the table as the first
  application left it: every proposed row now conflicts on \<open>_id\<close>, and a conflict
  rewrites the column \<open>data\<close> only, so no row is added.
\<close>

theorem upsertMany_idempotent:
  assumes ne: "inserts \<noteq> []"
    and keys: "distinct (map item_id (proposed_rows toDBItem inserts))"
  shows "\<exists>entities table'.
           upsertMany toDBItem create inserts table = Inr (entities, table') \<and>
           upsertMany toDBItem create inserts table' = Inr (entities, table')"
proof -
  have "\<not> (\<exists>e. upsertMany toDBItem create inserts table = Inl e)"
    using ne keys upsertMany_raises[of toDBItem create inserts table] by simp
  then obtain entities table' where
    first: "upsertMany toDBItem create inserts table = Inr (entities, table')"
    by (cases "upsertMany toDBItem create inserts table") auto
  show ?thesis using first upsertMany_again[OF first] by blast
qed

theorem upsertMany_idempotent_witness:
  "[(7, ''a''), (7, ''b'')] \<noteq> [] \<and>
   distinct (map item_id (proposed_rows toDBItem_hash [(7, ''a''), (7, ''b'')])) \<and>
   upsertMany toDBItem_hash id [(7, ''a''), (7, ''b'')]
      [\<lparr>item_id = ''b'', item_data = (''old'', 3), item_rest = 0\<rparr>] =
     Inr ([\<lparr>item_id = ''a'', item_data = (''a'', 7), item_rest = 0\<rparr>,
           \<lparr>item_id = ''b'', item_data = (''old'', 3), item_rest = 0\<rparr>],
          [\<lparr>item_id = ''b'', item_data = (''old'', 3), item_rest = 0\<rparr>,
           \<lparr>item_id = ''a'', item_data = (''a'', 7), item_rest = 0\<rparr>]) \<and>
   upsertMany toDBItem_hash id [(7, ''a''), (7, ''b'')]
      [\<lparr>item_id = ''b'', item_data = (''old'', 3), item_rest = 0\<rparr>,
       \<lparr>item_id = ''a'', item_data = (''a'', 7), item_rest = 0\<rparr>] =
     Inr ([\<lparr>item_id = ''a'', item_data = (''a'', 7), item_rest = 0\<rparr>,
           \<lparr>item_id = ''b'', item_data = (''old'', 3), item_rest = 0\<rparr>],
          [\<lparr>item_id = ''b'', item_data = (''old'', 3), item_rest = 0\<rparr>,
           \<lparr>item_id = ''a'', item_data = (''a'', 7), item_rest = 0\<rparr>])"
proof -
  let ?inserts = "[(7::nat, ''a''), (7, ''b'')]"
  let ?table = "[\<lparr>item_id = ''b'', item_data = (''old'', 3::nat), item_rest = 0::nat\<rparr>]"
  have ne: "?inserts \<noteq> []" by simp
  have keys: "distinct (map item_id (proposed_rows toDBItem_hash ?inserts))"
    by (simp add: proposed_rows_def toDBItem_hash_def)
  have first: "upsertMany toDBItem_hash id ?inserts ?table =
     Inr ([\<lparr>item_id = ''a'', item_data = (''a'', 7), item_rest = 0\<rparr>,
           \<lparr>item_id = ''b'', item_data = (''old'', 3), item_rest = 0\<rparr>],
          [\<lparr>item_id = ''b'', item_data = (''old'', 3), item_rest = 0\<rparr>,
           \<lparr>item_id = ''a'', item_data = (''a'', 7), item_rest = 0\<rparr>])"
    by (simp add: upsertMany_def insert_onConflictDoUpdate_def Let_def proposed_rows_def
        toDBItem_hash_def)
  obtain entities table' where
    a: "upsertMany toDBItem_hash id ?inserts ?table = Inr (entities, table')" and
    b: "upsertMany toDBItem_hash id ?inserts table' = Inr (entities, table')"
    using upsertMany_idempotent[OF ne keys, of id ?table] by blast
  have "entities = [\<lparr>item_id = ''a'', item_data = (''a'', 7), item_rest = 0\<rparr>,
           \<lparr>item_id = ''b'', item_data = (''old'', 3), item_rest = 0\<rparr>]"
    and "table' = [\<lparr>item_id = ''b'', item_data = (''old'', 3), item_rest = 0\<rparr>,
           \<lparr>item_id = ''a'', item_data = (''a'', 7), item_rest = 0\<rparr>]"
    using a first by simp_all
  then show ?thesis using ne keys first b by simp
qed

text \<open>
  C10 as stated fails: on an empty list of inserts, and on a list that proposes two rows
  with the same \<open>_id\<close>, the first application raises an error and leaves the table as it
  was, so a second application with the same inputs raises the same error.
\<close>

theorem upsertMany_raises_twice:
  "upsertMany toDBItem_hash id []
      [\<lparr>item_id = ''b'', item_data = (''old'', 3), item_rest = 0\<rparr>] =
     Inl (Failure ''values() must be called with at least one value'') \<and>
   upsertMany toDBItem_hash id [(7, ''a''), (8, ''a'')]
      [\<lparr>item_id = ''b'', item_data = (''old'', 3), item_rest = 0\<rparr>] =
     Inl (Failure ''ON CONFLICT DO UPDATE command cannot affect row a second time'')"
  by (simp add: upsertMany_def insert_onConflictDoUpdate_def Let_def proposed_rows_def
      toDBItem_hash_def)

end
